theory Spec2Isabelle
  imports Main "HOL-Library.AList" "HOL-Library.Sublist"
begin

section \<open>Relay server (src/server/relay.ts, src/server/database.ts)\<close>

subsection \<open>Wire values\<close>

text \<open>
  JSON payloads that the relay only forwards or stores. \<open>JStr\<close> is the one kind the
  code tells apart (\<^verbatim>\<open>typeof message.content === 'string'\<close>).
\<close>

datatype json =
    JNull
  | JBool bool
  | JNum int
  | JStr string
  | JArr "json list"
  | JObj "(string \<times> json) list"

datatype msg_role = User | Assistant

text \<open>A WebSocket is a handle; whether it is OPEN is read from the environment.\<close>

type_synonym socket = nat

subsection \<open>Durable store (class SessionDatabase)\<close>

text \<open>
  A table is the list of its rows in insertion order and an INSERT appends a row; failures
  of the database engine (constraints, I/O) are not part of the model.
\<close>

text \<open>
  A TEXT column written by the store: \<open>Plain s\<close> is the string \<open>s\<close> itself,
  \<open>Stringified v\<close> is the text \<^verbatim>\<open>JSON.stringify(v)\<close>.
\<close>

datatype column = Plain string | Stringified json

record session_row =
  s_id :: string
  s_created_at :: int
  s_last_activity :: int

record stored_message =
  m_id :: string
  m_session_id :: string
  m_role :: msg_role
  m_content :: column
  m_author_username :: "string option"
  m_timestamp :: int

record tool_result_row =
  t_id :: string
  t_session_id :: string
  t_tool_use_id :: string
  t_content :: column
  t_client_id :: string
  t_timestamp :: int

record database =
  sessions_tbl :: "session_row list"
  messages_tbl :: "stored_message list"
  tool_results_tbl :: "tool_result_row list"

text \<open>
  The environment of one handler run: the clock (\<^verbatim>\<open>Date.now()\<close>, read once per run),
  the ready state of every socket, the random part of a generated id, and
  \<^verbatim>\<open>JSON.parse\<close> on a stored string (\<open>None\<close> when it throws).
\<close>

record env =
  now :: int
  isOpen :: "socket \<Rightarrow> bool"
  freshId :: string
  jsonParse :: "string \<Rightarrow> json option"

text \<open>The argument of \<^verbatim>\<open>saveMessage\<close> as the relay builds it.\<close>

record new_message =
  nm_id :: "string option"
  nm_role :: msg_role
  nm_content :: json
  nm_author_username :: "string option"

text \<open>What \<^verbatim>\<open>getMessages\<close> returns for one row.\<close>

record entry =
  e_id :: string
  e_role :: msg_role
  e_content :: json
  e_author_username :: "string option"
  e_timestamp :: int

definition empty_db :: database where
  "empty_db = \<lparr>sessions_tbl = [], messages_tbl = [], tool_results_tbl = []\<rparr>"

text \<open>\<^verbatim>\<open>INSERT OR IGNORE INTO sessions\<close>: an existing row is kept.\<close>

definition createSession :: "env \<Rightarrow> database \<Rightarrow> string \<Rightarrow> database" where
  "createSession e d sessionId =
     (if sessionId \<in> set (map s_id (sessions_tbl d)) then d
      else d\<lparr>sessions_tbl := sessions_tbl d @
             [\<lparr>s_id = sessionId, s_created_at = now e, s_last_activity = now e\<rparr>]\<rparr>)"

definition updateSessionActivity :: "env \<Rightarrow> database \<Rightarrow> string \<Rightarrow> database" where
  "updateSessionActivity e d sessionId =
     d\<lparr>sessions_tbl :=
         map (\<lambda>r. if s_id r = sessionId then r\<lparr>s_last_activity := now e\<rparr> else r)
             (sessions_tbl d)\<rparr>"

definition generateMessageId :: "env \<Rightarrow> string" where
  "generateMessageId e = ''msg_'' @ freshId e"

definition generateId :: "env \<Rightarrow> string" where
  "generateId e = freshId e"

text \<open>\<^verbatim>\<open>x || fallback\<close> on an optional string: absent and empty are both falsy.\<close>

fun truthy :: "string option \<Rightarrow> bool" where
  "truthy None = False"
| "truthy (Some s) = (s \<noteq> [])"

definition message_row :: "env \<Rightarrow> string \<Rightarrow> new_message \<Rightarrow> stored_message" where
  "message_row e sessionId message =
     \<lparr>m_id = (case nm_id message of
                Some i \<Rightarrow> if i \<noteq> [] then i else generateMessageId e
              | None \<Rightarrow> generateMessageId e),
      m_session_id = sessionId,
      m_role = nm_role message,
      m_content = (case nm_content message of
                     JStr s \<Rightarrow> Plain s
                   | v \<Rightarrow> Stringified v),
      m_author_username =
        (if truthy (nm_author_username message) then nm_author_username message else None),
      m_timestamp = now e\<rparr>"

definition saveMessage :: "env \<Rightarrow> database \<Rightarrow> string \<Rightarrow> new_message \<Rightarrow> database" where
  "saveMessage e d sessionId message =
     updateSessionActivity e
       (d\<lparr>messages_tbl := messages_tbl d @ [message_row e sessionId message]\<rparr>) sessionId"

text \<open>
  Reading a column back: \<^verbatim>\<open>try { JSON.parse(row.content) } catch { row.content }\<close>.
  Parsing the text of \<^verbatim>\<open>JSON.stringify(v)\<close> gives \<open>v\<close> back.
\<close>

fun read_content :: "env \<Rightarrow> column \<Rightarrow> json" where
  "read_content e (Stringified v) = v"
| "read_content e (Plain s) = (case jsonParse e s of Some v \<Rightarrow> v | None \<Rightarrow> JStr s)"

definition row_entry :: "env \<Rightarrow> stored_message \<Rightarrow> entry" where
  "row_entry e r =
     \<lparr>e_id = m_id r, e_role = m_role r, e_content = read_content e (m_content r),
      e_author_username = m_author_username r, e_timestamp = m_timestamp r\<rparr>"

text \<open>\<^verbatim>\<open>SELECT * FROM messages WHERE session_id = ? ORDER BY timestamp ASC\<close>.\<close>

definition getMessages :: "env \<Rightarrow> database \<Rightarrow> string \<Rightarrow> entry list" where
  "getMessages e d sessionId =
     map (row_entry e)
       (sort_key m_timestamp (filter (\<lambda>r. m_session_id r = sessionId) (messages_tbl d)))"

definition tool_row :: "env \<Rightarrow> string \<Rightarrow> string \<Rightarrow> json \<Rightarrow> string \<Rightarrow> tool_result_row" where
  "tool_row e sessionId toolUseId content clientId =
     \<lparr>t_id = generateId e, t_session_id = sessionId, t_tool_use_id = toolUseId,
      t_content = Stringified content, t_client_id = clientId, t_timestamp = now e\<rparr>"

definition saveToolResult ::
  "env \<Rightarrow> database \<Rightarrow> string \<Rightarrow> string \<Rightarrow> json \<Rightarrow> string \<Rightarrow> database" where
  "saveToolResult e d sessionId toolUseId content clientId =
     d\<lparr>tool_results_tbl := tool_results_tbl d @ [tool_row e sessionId toolUseId content clientId]\<rparr>"

subsection \<open>Sessions and messages\<close>

record client_info =
  clientId :: string
  username :: string
  ws :: socket
  connectedAt :: int

text \<open>
  A JavaScript \<^verbatim>\<open>Map\<close> keeps insertion order and \<^verbatim>\<open>set\<close> on a present key
  replaces the value in place: an association list with \<open>AList.update\<close> and
  \<open>AList.delete\<close>.
\<close>

record session =
  session_id :: string
  clients :: "(string \<times> client_info) list"
  lockHolder :: "string option"
  lockUsername :: "string option"
  lockGrantedAt :: "int option"
  lastActivity :: int

record relay_state =
  sessions :: "(string \<times> session) list"
  db :: database

definition init_state :: relay_state where
  "init_state = \<lparr>sessions = [], db = empty_db\<rparr>"

definition LOCK_TIMEOUT_MS :: int where
  "LOCK_TIMEOUT_MS = 30000"

text \<open>The body of \<^verbatim>\<open>assistant.complete\<close>: \<^verbatim>\<open>msg.message\<close> and its \<^verbatim>\<open>content\<close> field.\<close>

record assistant_message =
  message_content :: json
  message_other :: json

datatype client_msg =
    ClientConnect string string string
  | SyncRequest string string
  | LockRequest string string string
  | LockRelease string string
  | UserMessage string string string string
  | AssistantChunk string string string
  | AssistantComplete string string assistant_message
  | ToolExecute string string string string json
  | ToolResult string string string json bool
  | UnknownType string

datatype server_msg =
    Error string
  | Connected string string
  | ParticipantJoined string string
  | SyncState string "entry list" "(string \<times> string) list" "string option" "string option"
  | LockGranted string string
  | LockDenied "string option" string
  | LockReleased "string option"
  | UserMessageBroadcast string string int
  | AssistantStreaming string string
  | AssistantCompleteBroadcast assistant_message
  | ToolExecuting string string json string
  | ToolResultBroadcast string json bool
  | ParticipantLeft string string

text \<open>What a handler does besides changing the in-memory state, in program order.\<close>

datatype db_call =
    CreateSession string
  | SaveMessage stored_message
  | SaveToolResult tool_result_row

datatype effect = Persist db_call | Send socket server_msg

fun is_send :: "effect \<Rightarrow> bool" where
  "is_send (Send w m) = True"
| "is_send (Persist c) = False"

definition broadcast :: "env \<Rightarrow> session \<Rightarrow> server_msg \<Rightarrow> string option \<Rightarrow> effect list" where
  "broadcast e session message excludeClientId =
     map (\<lambda>client. Send (ws client) message)
       (filter (\<lambda>client. Some (clientId client) \<noteq> excludeClientId \<and> isOpen e (ws client))
          (map snd (clients session)))"

definition clear_lock :: "session \<Rightarrow> session" where
  "clear_lock session = session\<lparr>lockHolder := None, lockUsername := None, lockGrantedAt := None\<rparr>"

subsection \<open>Periodic lock timeout check\<close>

text \<open>
  The callback of the first \<^verbatim>\<open>setInterval\<close>, for one session. The guard
  \<^verbatim>\<open>session.lockHolder && session.lockGrantedAt\<close> is JavaScript truthiness: the empty
  string and the number 0 fail it, as \<^verbatim>\<open>null\<close> does.
\<close>

definition expire :: "env \<Rightarrow> session \<Rightarrow> session \<times> effect list" where
  "expire e session =
     (case (lockHolder session, lockGrantedAt session) of
        (Some h, Some g) \<Rightarrow>
          if h \<noteq> [] \<and> g \<noteq> 0 \<and> now e - g > LOCK_TIMEOUT_MS
          then (clear_lock session,
                broadcast e (clear_lock session) (LockReleased (Some ''timeout'')) None)
          else (session, [])
      | _ \<Rightarrow> (session, []))"

definition lockTimeoutSweep :: "env \<Rightarrow> relay_state \<Rightarrow> relay_state \<times> effect list" where
  "lockTimeoutSweep e s =
     (s\<lparr>sessions := map (\<lambda>(k, session). (k, fst (expire e session))) (sessions s)\<rparr>,
      concat (map (\<lambda>(k, session). snd (expire e session)) (sessions s)))"

subsection \<open>Message handlers\<close>

definition handleClientConnect ::
  "env \<Rightarrow> relay_state \<Rightarrow> socket \<Rightarrow> string \<Rightarrow> string \<Rightarrow> string \<Rightarrow> relay_state \<times> effect list" where
  "handleClientConnect e s w sid cid uname =
     (if sid = [] \<or> cid = [] then (s, [Send w (Error ''Missing sessionId or clientId'')])
      else
        let name = (if uname = [] then ''Anonymous'' else uname);
            found = map_of (sessions s) sid;
            session0 = (case found of
                          Some x \<Rightarrow> x
                        | None \<Rightarrow> \<lparr>session_id = sid, clients = [], lockHolder = None,
                                    lockUsername = None, lockGrantedAt = None,
                                    lastActivity = now e\<rparr>);
            d = (case found of Some x \<Rightarrow> db s | None \<Rightarrow> createSession e (db s) sid);
            created = (case found of Some x \<Rightarrow> [] | None \<Rightarrow> [Persist (CreateSession sid)]);
            session1 = session0\<lparr>
              clients := AList.update cid
                 \<lparr>clientId = cid, username = name, ws = w, connectedAt = now e\<rparr> (clients session0),
              lastActivity := now e\<rparr>
        in (s\<lparr>sessions := AList.update sid session1 (sessions s), db := d\<rparr>,
            created @ [Send w (Connected cid sid)]
              @ broadcast e session1 (ParticipantJoined name cid) (Some cid)))"

definition handleSyncRequest ::
  "env \<Rightarrow> relay_state \<Rightarrow> socket \<Rightarrow> string \<Rightarrow> string \<Rightarrow> relay_state \<times> effect list" where
  "handleSyncRequest e s w sid cid =
     (case map_of (sessions s) sid of
        None \<Rightarrow> (s, [Send w (Error ''Session not found'')])
      | Some session \<Rightarrow>
          (s, [Send w (SyncState sid (getMessages e (db s) sid)
                 (map (\<lambda>c. (clientId c, username c)) (map snd (clients session)))
                 (lockHolder session) (lockUsername session))]))"

definition handleLockRequest ::
  "env \<Rightarrow> relay_state \<Rightarrow> string \<Rightarrow> string \<Rightarrow> string \<Rightarrow> relay_state \<times> effect list" where
  "handleLockRequest e s sid cid uname =
     (case map_of (sessions s) sid of
        None \<Rightarrow> (s, [])
      | Some session \<Rightarrow>
          if lockHolder session = None \<or> lockHolder session = Some cid then
            let session1 = session\<lparr>lockHolder := Some cid, lockUsername := Some uname,
                                   lockGrantedAt := Some (now e), lastActivity := now e\<rparr>
            in (s\<lparr>sessions := AList.update sid session1 (sessions s)\<rparr>,
                broadcast e session1 (LockGranted cid uname) None)
          else
            (case map_of (clients session) cid of
               Some client \<Rightarrow>
                 (s, [Send (ws client) (LockDenied (lockUsername session) ''lock_held'')])
             | None \<Rightarrow> (s, [])))"

definition handleLockRelease ::
  "env \<Rightarrow> relay_state \<Rightarrow> string \<Rightarrow> string \<Rightarrow> relay_state \<times> effect list" where
  "handleLockRelease e s sid cid =
     (case map_of (sessions s) sid of
        None \<Rightarrow> (s, [])
      | Some session \<Rightarrow>
          if lockHolder session = Some cid then
            (s\<lparr>sessions := AList.update sid (clear_lock session) (sessions s)\<rparr>,
             broadcast e (clear_lock session) (LockReleased None) None)
          else (s, []))"

definition handleUserMessage ::
  "env \<Rightarrow> relay_state \<Rightarrow> string \<Rightarrow> string \<Rightarrow> string \<Rightarrow> string \<Rightarrow> relay_state \<times> effect list" where
  "handleUserMessage e s sid cid uname content =
     (case map_of (sessions s) sid of
        None \<Rightarrow> (s, [])
      | Some session \<Rightarrow>
          if lockHolder session \<noteq> Some cid then (s, [])
          else
            let session1 = session\<lparr>lastActivity := now e\<rparr>;
                message = \<lparr>nm_id = None, nm_role = User, nm_content = JStr content,
                           nm_author_username = Some uname\<rparr>
            in (s\<lparr>sessions := AList.update sid session1 (sessions s),
                  db := saveMessage e (db s) sid message\<rparr>,
                Persist (SaveMessage (message_row e sid message))
                  # broadcast e session1 (UserMessageBroadcast uname content (now e)) (Some cid)))"

definition handleAssistantChunk ::
  "env \<Rightarrow> relay_state \<Rightarrow> string \<Rightarrow> string \<Rightarrow> string \<Rightarrow> relay_state \<times> effect list" where
  "handleAssistantChunk e s sid cid delta =
     (case map_of (sessions s) sid of
        None \<Rightarrow> (s, [])
      | Some session \<Rightarrow>
          if lockHolder session \<noteq> Some cid then (s, [])
          else
            let session1 = session\<lparr>lastActivity := now e\<rparr>
            in (s\<lparr>sessions := AList.update sid session1 (sessions s)\<rparr>,
                broadcast e session1 (AssistantStreaming delta cid) (Some cid)))"

definition handleAssistantComplete ::
  "env \<Rightarrow> relay_state \<Rightarrow> string \<Rightarrow> string \<Rightarrow> assistant_message \<Rightarrow> relay_state \<times> effect list" where
  "handleAssistantComplete e s sid cid message =
     (case map_of (sessions s) sid of
        None \<Rightarrow> (s, [])
      | Some session \<Rightarrow>
          if lockHolder session \<noteq> Some cid then (s, [])
          else
            let session1 = session\<lparr>lastActivity := now e\<rparr>;
                saved = \<lparr>nm_id = None, nm_role = Assistant, nm_content = message_content message,
                         nm_author_username = None\<rparr>
            in (s\<lparr>sessions := AList.update sid session1 (sessions s),
                  db := saveMessage e (db s) sid saved\<rparr>,
                Persist (SaveMessage (message_row e sid saved))
                  # broadcast e session1 (AssistantCompleteBroadcast message) (Some cid)))"

definition handleToolExecute ::
  "env \<Rightarrow> relay_state \<Rightarrow> string \<Rightarrow> string \<Rightarrow> string \<Rightarrow> string \<Rightarrow> json \<Rightarrow> relay_state \<times> effect list" where
  "handleToolExecute e s sid cid toolUseId toolName input =
     (case map_of (sessions s) sid of
        None \<Rightarrow> (s, [])
      | Some session \<Rightarrow>
          (s, broadcast e session (ToolExecuting toolUseId toolName input cid) None))"

definition handleToolResult ::
  "env \<Rightarrow> relay_state \<Rightarrow> string \<Rightarrow> string \<Rightarrow> string \<Rightarrow> json \<Rightarrow> bool \<Rightarrow> relay_state \<times> effect list" where
  "handleToolResult e s sid cid toolUseId content isError =
     (case map_of (sessions s) sid of
        None \<Rightarrow> (s, [])
      | Some session \<Rightarrow>
          (s\<lparr>db := saveToolResult e (db s) sid toolUseId content cid\<rparr>,
           Persist (SaveToolResult (tool_row e sid toolUseId content cid))
             # broadcast e session (ToolResultBroadcast toolUseId content isError) None))"

definition handleClientDisconnect ::
  "env \<Rightarrow> relay_state \<Rightarrow> string \<Rightarrow> string \<Rightarrow> relay_state \<times> effect list" where
  "handleClientDisconnect e s sid cid =
     (case map_of (sessions s) sid of
        None \<Rightarrow> (s, [])
      | Some session \<Rightarrow>
          (case map_of (clients session) cid of
             None \<Rightarrow> (s, [])
           | Some clientInfo \<Rightarrow>
               let session1 = session\<lparr>clients := AList.delete cid (clients session)\<rparr>;
                   held = (lockHolder session1 = Some cid);
                   session2 = (if held then clear_lock session1 else session1);
                   released = (if held
                               then broadcast e session2
                                      (LockReleased (Some ''holder_disconnected'')) None
                               else []);
                   left = broadcast e session2 (ParticipantLeft (username clientInfo) cid) None
               in (s\<lparr>sessions := (if clients session2 = []
                                    then AList.delete sid (sessions s)
                                    else AList.update sid session2 (sessions s))\<rparr>,
                   released @ left)))"

subsection \<open>The event loop\<close>

text \<open>
  One event is a parsed message arriving on a socket, a socket closing after it
  connected as \<open>(sessionId, clientId)\<close>, or a tick of the timeout check. Message fields
  are strings, as the client sends them, so no handler throws and the \<^verbatim>\<open>catch\<close> branch of
  the message callback (an error reply to the sender) does not occur.
\<close>

datatype event =
    Message socket client_msg
  | Close string string
  | Tick

fun dispatch :: "env \<Rightarrow> relay_state \<Rightarrow> socket \<Rightarrow> client_msg \<Rightarrow> relay_state \<times> effect list" where
  "dispatch e s w (ClientConnect sid cid uname) = handleClientConnect e s w sid cid uname"
| "dispatch e s w (SyncRequest sid cid) = handleSyncRequest e s w sid cid"
| "dispatch e s w (LockRequest sid cid uname) = handleLockRequest e s sid cid uname"
| "dispatch e s w (LockRelease sid cid) = handleLockRelease e s sid cid"
| "dispatch e s w (UserMessage sid cid uname content) = handleUserMessage e s sid cid uname content"
| "dispatch e s w (AssistantChunk sid cid delta) = handleAssistantChunk e s sid cid delta"
| "dispatch e s w (AssistantComplete sid cid message) = handleAssistantComplete e s sid cid message"
| "dispatch e s w (ToolExecute sid cid toolUseId toolName input) =
     handleToolExecute e s sid cid toolUseId toolName input"
| "dispatch e s w (ToolResult sid cid toolUseId content isError) =
     handleToolResult e s sid cid toolUseId content isError"
| "dispatch e s w (UnknownType t) = (s, [])"

fun step :: "env \<Rightarrow> relay_state \<Rightarrow> event \<Rightarrow> relay_state \<times> effect list" where
  "step e s (Message w m) = dispatch e s w m"
| "step e s (Close sid cid) = handleClientDisconnect e s sid cid"
| "step e s Tick = lockTimeoutSweep e s"

fun run :: "relay_state \<Rightarrow> (env \<times> event) list \<Rightarrow> relay_state" where
  "run s [] = s"
| "run s ((e, ev) # rest) = run (fst (step e s ev)) rest"

subsection \<open>Reading the model\<close>

text \<open>The sockets a broadcast without exclusion writes to: the roster, in order, OPEN ones only.\<close>

definition recipients :: "env \<Rightarrow> session \<Rightarrow> socket list" where
  "recipients e session = filter (isOpen e) (map (\<lambda>c. ws c) (map snd (clients session)))"

definition recipients_except :: "env \<Rightarrow> session \<Rightarrow> string \<Rightarrow> socket list" where
  "recipients_except e session cid =
     map ws (filter (\<lambda>c. clientId c \<noteq> cid \<and> isOpen e (ws c)) (map snd (clients session)))"

definition roster :: "session \<Rightarrow> string list" where
  "roster session = map fst (clients session)"

text \<open>The lock holder of a session of the registry (\<open>None\<close>: no such session, or idle).\<close>

definition holder_of :: "relay_state \<Rightarrow> string \<Rightarrow> string option" where
  "holder_of s sid = (case map_of (sessions s) sid of None \<Rightarrow> None | Some session \<Rightarrow> lockHolder session)"

text \<open>Every held lock of the registry is held by a member of that session's roster.\<close>

definition holder_in_roster :: "session \<Rightarrow> bool" where
  "holder_in_roster session =
     (case lockHolder session of None \<Rightarrow> True | Some h \<Rightarrow> h \<in> set (roster session))"

definition holder_connected :: "relay_state \<Rightarrow> bool" where
  "holder_connected s = list_all (\<lambda>(k, session). holder_in_roster session) (sessions s)"

text \<open>
  A run in which every \<^verbatim>\<open>lock.request\<close> names a client that is in the roster of the
  session at the moment the relay handles it.
\<close>

fun member_request :: "relay_state \<Rightarrow> event \<Rightarrow> bool" where
  "member_request s (Message w (LockRequest sid cid uname)) =
     (case map_of (sessions s) sid of
        None \<Rightarrow> True
      | Some session \<Rightarrow> cid \<in> set (roster session))"
| "member_request s ev = True"

fun requests_from_members :: "relay_state \<Rightarrow> (env \<times> event) list \<Rightarrow> bool" where
  "requests_from_members s [] = True"
| "requests_from_members s ((e, ev) # rest) =
     (member_request s ev \<and> requests_from_members (fst (step e s ev)) rest)"


text \<open>The rows \<^verbatim>\<open>handleUserMessage\<close> and \<^verbatim>\<open>handleAssistantComplete\<close> hand to the store.\<close>

definition user_row :: "env \<Rightarrow> string \<Rightarrow> string \<Rightarrow> string \<Rightarrow> stored_message" where
  "user_row e sid uname txt =
     message_row e sid \<lparr>nm_id = None, nm_role = User, nm_content = JStr txt,
                        nm_author_username = Some uname\<rparr>"

definition assistant_row :: "env \<Rightarrow> string \<Rightarrow> assistant_message \<Rightarrow> stored_message" where
  "assistant_row e sid message =
     message_row e sid \<lparr>nm_id = None, nm_role = Assistant, nm_content = message_content message,
                        nm_author_username = None\<rparr>"

section \<open>Tool executor (src/client/tools/executor.ts)\<close>

text \<open>
  Node's \<^verbatim>\<open>path.resolve\<close> on POSIX, for the two-argument calls of the executor: the
  rightmost absolute argument starts the path, the working directory is used when neither
  is absolute, then \<^verbatim>\<open>.\<close>, empty and \<^verbatim>\<open>..\<close> segments are resolved and a trailing
  slash is dropped.
\<close>

fun split_slash :: "string \<Rightarrow> string list" where
  "split_slash [] = [[]]"
| "split_slash (c # cs) =
     (if c = CHR ''/'' then [] # split_slash cs
      else (case split_slash cs of
              [] \<Rightarrow> [[c]]
            | seg # segs \<Rightarrow> (c # seg) # segs))"

fun normalize_segments :: "string list \<Rightarrow> string list \<Rightarrow> string list" where
  "normalize_segments acc [] = rev acc"
| "normalize_segments acc (seg # rest) =
     (if seg = [] \<or> seg = ''.'' then normalize_segments acc rest
      else if seg = ''..'' then normalize_segments (case acc of [] \<Rightarrow> [] | s # below \<Rightarrow> below) rest
      else normalize_segments (seg # acc) rest)"

fun join_slash :: "string list \<Rightarrow> string" where
  "join_slash [] = []"
| "join_slash [seg] = seg"
| "join_slash (seg # segs) = seg @ ''/'' @ join_slash segs"

definition is_absolute :: "string \<Rightarrow> bool" where
  "is_absolute p = (case p of [] \<Rightarrow> False | c # cs \<Rightarrow> c = CHR ''/'')"

definition path_resolve :: "string \<Rightarrow> string \<Rightarrow> string \<Rightarrow> string" where
  "path_resolve cwd base p =
     (let joined = (if is_absolute p then p
                    else if is_absolute base then base @ ''/'' @ p
                    else cwd @ ''/'' @ base @ ''/'' @ p)
      in ''/'' @ join_slash (normalize_segments [] (split_slash joined)))"

definition path_dirname :: "string \<Rightarrow> string" where
  "path_dirname p = ''/'' @ join_slash (butlast (normalize_segments [] (split_slash p)))"

text \<open>A directory contains itself and every path below it.\<close>

definition within_root :: "string \<Rightarrow> string \<Rightarrow> bool" where
  "within_root root p = (p = root \<or> prefix (root @ ''/'') p)"

record tool_input =
  input_path :: "string option"
  input_content :: string
  input_pattern :: string

text \<open>The file system calls a tool issues, with the absolute path each one is given.\<close>

datatype fs_call =
    FsReadFile string
  | FsMkdir string
  | FsWriteFile string string
  | FsReaddir string
  | FsGlob string string

text \<open>
  What \<^verbatim>\<open>execute\<close> does: refuse the path, run a tool (its calls in order), fail on an
  exception of the tool before any call (\<^verbatim>\<open>path.resolve(root, undefined)\<close>), or report
  an unknown tool.
\<close>

datatype outcome =
    PathRejected string
  | Ran "fs_call list"
  | Threw
  | UnknownTool string

definition readFile :: "string \<Rightarrow> string \<Rightarrow> string option \<Rightarrow> outcome" where
  "readFile cwd projectRoot relativePath =
     (case relativePath of
        None \<Rightarrow> Threw
      | Some p \<Rightarrow> Ran [FsReadFile (path_resolve cwd projectRoot p)])"

definition writeFile :: "string \<Rightarrow> string \<Rightarrow> string option \<Rightarrow> string \<Rightarrow> outcome" where
  "writeFile cwd projectRoot relativePath content =
     (case relativePath of
        None \<Rightarrow> Threw
      | Some p \<Rightarrow>
          (let fullPath = path_resolve cwd projectRoot p
           in Ran [FsMkdir (path_dirname fullPath), FsWriteFile fullPath content]))"

definition listDirectory :: "string \<Rightarrow> string \<Rightarrow> string option \<Rightarrow> outcome" where
  "listDirectory cwd projectRoot relativePath =
     (case relativePath of
        None \<Rightarrow> Threw
      | Some p \<Rightarrow> Ran [FsReaddir (path_resolve cwd projectRoot p)])"

definition searchFiles :: "string \<Rightarrow> string \<Rightarrow> outcome" where
  "searchFiles projectRoot pattern = Ran [FsGlob pattern projectRoot]"

definition execute :: "string \<Rightarrow> string \<Rightarrow> string \<Rightarrow> tool_input \<Rightarrow> outcome" where
  "execute cwd projectRoot toolName input =
     (if (case input_path input of
            None \<Rightarrow> False
          | Some p \<Rightarrow> p \<noteq> [] \<and> \<not> prefix projectRoot (path_resolve cwd projectRoot p))
      then PathRejected ''Path must be within project root''
      else if toolName = ''read_file'' then readFile cwd projectRoot (input_path input)
      else if toolName = ''write_file''
        then writeFile cwd projectRoot (input_path input) (input_content input)
      else if toolName = ''list_directory'' then listDirectory cwd projectRoot (input_path input)
      else if toolName = ''search_files'' then searchFiles projectRoot (input_pattern input)
      else UnknownTool toolName)"

fun fs_path :: "fs_call \<Rightarrow> string" where
  "fs_path (FsReadFile p) = p"
| "fs_path (FsMkdir p) = p"
| "fs_path (FsWriteFile p c) = p"
| "fs_path (FsReaddir p) = p"
| "fs_path (FsGlob pat dir) = dir"

section \<open>Conversation repair on the client (validateToolMessages)\<close>

text \<open>
  A content block is a JavaScript object: its \<^verbatim>\<open>type\<close> tag, the \<^verbatim>\<open>id\<close> and
  \<^verbatim>\<open>tool_use_id\<close> fields (\<open>None\<close> when the object has no such field) and the rest.
\<close>

record content_block =
  block_type :: string
  block_id :: "string option"
  block_tool_use_id :: "string option"
  block_body :: json

datatype param_content = Str string | Blocks "content_block list"

record message_param =
  role :: msg_role
  content :: param_content

definition is_tool_result :: "content_block \<Rightarrow> bool" where
  "is_tool_result block = (block_type block = ''tool_result'')"

definition is_tool_use :: "content_block \<Rightarrow> bool" where
  "is_tool_use block = (block_type block = ''tool_use'')"

text \<open>One pass of the loop body: \<open>result\<close> before the entry, \<open>result\<close> after it.\<close>

definition validate_entry :: "message_param list \<Rightarrow> message_param \<Rightarrow> message_param list" where
  "validate_entry result msg =
     (case content msg of
        Str s \<Rightarrow> result @ [msg]
      | Blocks blocks \<Rightarrow>
          if role msg \<noteq> User then result @ [msg]
          else
            let toolResults = filter is_tool_result blocks in
            if toolResults = [] then result @ [msg]
            else if result = [] \<or> role (last result) \<noteq> Assistant then result
            else
              let prevMsg = last result;
                  assistantContent = (case content prevMsg of Blocks bs \<Rightarrow> bs | Str s \<Rightarrow> []);
                  toolUseIds = map block_id (filter is_tool_use assistantContent);
                  validToolResults =
                    filter (\<lambda>block. block_tool_use_id block \<in> set toolUseIds) toolResults
              in if validToolResults = [] then result
                 else
                   let otherContent = filter (\<lambda>block. \<not> is_tool_result block) blocks;
                       validContent = otherContent @ validToolResults
                   in if validContent \<noteq> []
                      then result @ [\<lparr>role = User, content = Blocks validContent\<rparr>]
                      else result)"

fun validate_loop :: "message_param list \<Rightarrow> message_param list \<Rightarrow> message_param list" where
  "validate_loop result [] = result"
| "validate_loop result (msg # rest) = validate_loop (validate_entry result msg) rest"

definition validateToolMessages :: "message_param list \<Rightarrow> message_param list" where
  "validateToolMessages messages = validate_loop [] messages"

subsection \<open>Reading the repair\<close>

definition blocks_of :: "message_param \<Rightarrow> content_block list" where
  "blocks_of msg = (case content msg of Blocks bs \<Rightarrow> bs | Str s \<Rightarrow> [])"

text \<open>A user entry that carries at least one tool-result block.\<close>

definition carries_results :: "message_param \<Rightarrow> bool" where
  "carries_results msg = (role msg = User \<and> filter is_tool_result (blocks_of msg) \<noteq> [])"

definition invocation_ids :: "message_param \<Rightarrow> string option list" where
  "invocation_ids msg = map block_id (filter is_tool_use (blocks_of msg))"

text \<open>The tool-result blocks of \<open>msg\<close> that answer an invocation of \<open>prev\<close>.\<close>

definition answered :: "message_param \<Rightarrow> message_param \<Rightarrow> content_block list" where
  "answered prev msg =
     filter (\<lambda>b. is_tool_result b \<and> block_tool_use_id b \<in> set (invocation_ids prev)) (blocks_of msg)"

definition repaired_entry :: "message_param \<Rightarrow> message_param \<Rightarrow> message_param" where
  "repaired_entry prev msg =
     \<lparr>role = User,
      content = Blocks (filter (\<lambda>b. \<not> is_tool_result b) (blocks_of msg) @ answered prev msg)\<rparr>"

text \<open>
  A user entry with tool results is justified by the entry before it when that entry is an
  assistant entry that invoked every one of them. Entries without tool results need no
  justification.
\<close>

definition justified :: "message_param option \<Rightarrow> message_param \<Rightarrow> bool" where
  "justified prev msg =
     (carries_results msg \<longrightarrow>
        (case prev of
           None \<Rightarrow> False
         | Some p \<Rightarrow> role p = Assistant \<and>
             list_all (\<lambda>b. block_tool_use_id b \<in> set (invocation_ids p))
               (filter is_tool_result (blocks_of msg))))"

text \<open>In a paired sequence every entry is justified by the entry directly before it.\<close>

fun paired_after :: "message_param option \<Rightarrow> message_param list \<Rightarrow> bool" where
  "paired_after prev [] = True"
| "paired_after prev (msg # rest) = (justified prev msg \<and> paired_after (Some msg) rest)"

text \<open>The entry before the next one, when \<open>r\<close> has been built after \<open>p\<close>.\<close>

definition prev_of :: "message_param option \<Rightarrow> message_param list \<Rightarrow> message_param option" where
  "prev_of p r = (if r = [] then p else Some (last r))"

section \<open>Example states\<close>

text \<open>
  An environment with every socket OPEN, and the registry after Alice (socket 1) and Bob
  (socket 2) joined session S1 and Alice was granted the lock at time 3000.
\<close>

definition demo_env :: "int \<Rightarrow> env" where
  "demo_env t = \<lparr>now = t, isOpen = (\<lambda>w. True), freshId = ''r1'', jsonParse = (\<lambda>s. None)\<rparr>"

definition demo_session :: session where
  "demo_session =
     \<lparr>session_id = ''S1'',
      clients = [(''alice'', \<lparr>clientId = ''alice'', username = ''Alice'', ws = 1, connectedAt = 1000\<rparr>),
                 (''bob'', \<lparr>clientId = ''bob'', username = ''Bob'', ws = 2, connectedAt = 2000\<rparr>)],
      lockHolder = Some ''alice'', lockUsername = Some ''Alice'',
      lockGrantedAt = Some 3000, lastActivity = 3000\<rparr>"

definition demo_db :: database where
  "demo_db = \<lparr>sessions_tbl = [\<lparr>s_id = ''S1'', s_created_at = 1000, s_last_activity = 1000\<rparr>],
              messages_tbl = [], tool_results_tbl = []\<rparr>"

definition demo_state :: relay_state where
  "demo_state = \<lparr>sessions = [(''S1'', demo_session)], db = demo_db\<rparr>"

text \<open>
  The registry after Alice joined S1 and a \<^verbatim>\<open>lock.request\<close> with the empty string as
  \<^verbatim>\<open>clientId\<close> was granted at time 2000.
\<close>

definition stuck_session :: session where
  "stuck_session =
     \<lparr>session_id = ''S1'',
      clients = [(''alice'', \<lparr>clientId = ''alice'', username = ''Alice'', ws = 1, connectedAt = 1000\<rparr>)],
      lockHolder = Some [], lockUsername = Some ''Alice'',
      lockGrantedAt = Some 2000, lastActivity = 2000\<rparr>"

definition stuck_state :: relay_state where
  "stuck_state = \<lparr>sessions = [(''S1'', stuck_session)], db = demo_db\<rparr>"

text \<open>
  The registry and store after Alice joined S1, took the lock, said hello and released
  the lock.
\<close>

definition hello_row :: stored_message where
  "hello_row = \<lparr>m_id = ''msg_r1'', m_session_id = ''S1'', m_role = User, m_content = Plain ''hello'',
                 m_author_username = Some ''Alice'', m_timestamp = 4000\<rparr>"

definition solo_session :: session where
  "solo_session =
     \<lparr>session_id = ''S1'',
      clients = [(''alice'', \<lparr>clientId = ''alice'', username = ''Alice'', ws = 1, connectedAt = 1000\<rparr>)],
      lockHolder = None, lockUsername = None, lockGrantedAt = None, lastActivity = 4000\<rparr>"

definition solo_state :: relay_state where
  "solo_state =
     \<lparr>sessions = [(''S1'', solo_session)],
      db = \<lparr>sessions_tbl = [\<lparr>s_id = ''S1'', s_created_at = 1000, s_last_activity = 4000\<rparr>],
             messages_tbl = [hello_row], tool_results_tbl = []\<rparr>\<rparr>"

text \<open>
  Two runs from the empty registry. In the first, Alice and Bob join S1 and Alice takes the
  lock. In the second, Bob reconnects on a new socket before his old socket closes: the
  close of the old socket removes Bob from the roster, and his next \<^verbatim>\<open>lock.request\<close>,
  sent on the new socket, is granted.
\<close>

definition demo_events :: "(env \<times> event) list" where
  "demo_events =
     [(demo_env 1000, Message 1 (ClientConnect ''S1'' ''alice'' ''Alice'')),
      (demo_env 2000, Message 2 (ClientConnect ''S1'' ''bob'' ''Bob'')),
      (demo_env 3000, Message 1 (LockRequest ''S1'' ''alice'' ''Alice''))]"

definition ghost_events :: "(env \<times> event) list" where
  "ghost_events =
     [(demo_env 1000, Message 1 (ClientConnect ''S1'' ''alice'' ''Alice'')),
      (demo_env 2000, Message 2 (ClientConnect ''S1'' ''bob'' ''Bob'')),
      (demo_env 2500, Message 3 (ClientConnect ''S1'' ''bob'' ''Bob'')),
      (demo_env 2600, Close ''S1'' ''bob''),
      (demo_env 3000, Message 3 (LockRequest ''S1'' ''bob'' ''Bob''))]"

definition ghost_session :: session where
  "ghost_session =
     \<lparr>session_id = ''S1'',
      clients = [(''alice'', \<lparr>clientId = ''alice'', username = ''Alice'', ws = 1, connectedAt = 1000\<rparr>)],
      lockHolder = Some ''bob'', lockUsername = Some ''Bob'',
      lockGrantedAt = Some 3000, lastActivity = 3000\<rparr>"

definition ghost_state :: relay_state where
  "ghost_state = \<lparr>sessions = [(''S1'', ghost_session)], db = demo_db\<rparr>"

text \<open>
  A small conversation: a question, an assistant entry invoking tools A and B, and two
  candidate user entries, one answering A and C (with a text block between), one answering
  C only.
\<close>

definition use_block :: "string \<Rightarrow> content_block" where
  "use_block i = \<lparr>block_type = ''tool_use'', block_id = Some i, block_tool_use_id = None,
                  block_body = JNull\<rparr>"

definition result_block :: "string \<Rightarrow> content_block" where
  "result_block i = \<lparr>block_type = ''tool_result'', block_id = None, block_tool_use_id = Some i,
                     block_body = JNull\<rparr>"

definition text_block :: "string \<Rightarrow> content_block" where
  "text_block t = \<lparr>block_type = ''text'', block_id = None, block_tool_use_id = None,
                   block_body = JStr t\<rparr>"

definition question :: message_param where
  "question = \<lparr>role = User, content = Str ''list the files''\<rparr>"

definition ask_AB :: message_param where
  "ask_AB = \<lparr>role = Assistant, content = Blocks [use_block ''A'', use_block ''B'']\<rparr>"

definition reply_AC :: message_param where
  "reply_AC = \<lparr>role = User, content = Blocks [result_block ''A'', text_block ''note'', result_block ''C'']\<rparr>"

definition reply_C :: message_param where
  "reply_C = \<lparr>role = User, content = Blocks [result_block ''C'']\<rparr>"

text \<open>A tool input whose path leaves the project root \<^verbatim>\<open>/home/user/proj\<close> for a sibling.\<close>

definition escape_input :: tool_input where
  "escape_input = \<lparr>input_path = Some ''../proj-secret/key'', input_content = ''x'', input_pattern = []\<rparr>"

section \<open>Properties of the relay\<close>

lemmas handler_defs =
  handleClientConnect_def handleSyncRequest_def handleLockRequest_def handleLockRelease_def
  handleUserMessage_def handleAssistantChunk_def handleAssistantComplete_def
  handleToolExecute_def handleToolResult_def handleClientDisconnect_def

lemmas demo_defs = demo_env_def demo_session_def demo_db_def demo_state_def

text \<open>The example state is what the relay holds after three messages from the empty registry.\<close>

lemma demo_state_reached:
  "run init_state
     [(demo_env 1000, Message 1 (ClientConnect ''S1'' ''alice'' ''Alice'')),
      (demo_env 2000, Message 2 (ClientConnect ''S1'' ''bob'' ''Bob'')),
      (demo_env 3000, Message 1 (LockRequest ''S1'' ''alice'' ''Alice''))] = demo_state"
  by (simp add: demo_defs init_state_def empty_db_def handler_defs createSession_def
        broadcast_def Let_def)

text \<open>So are the state with Alice alone and the state in which Bob holds the lock.\<close>

lemmas solo_defs = hello_row_def solo_session_def solo_state_def

lemma solo_state_reached:
  "run init_state
     [(demo_env 1000, Message 1 (ClientConnect ''S1'' ''alice'' ''Alice'')),
      (demo_env 3000, Message 1 (LockRequest ''S1'' ''alice'' ''Alice'')),
      (demo_env 4000, Message 1 (UserMessage ''S1'' ''alice'' ''Alice'' ''hello'')),
      (demo_env 4500, Message 1 (LockRelease ''S1'' ''alice''))] = solo_state"
  by (simp add: solo_defs demo_env_def init_state_def empty_db_def handler_defs createSession_def
        saveMessage_def updateSessionActivity_def message_row_def generateMessageId_def
        clear_lock_def broadcast_def Let_def)

lemma ghost_reached: "run init_state ghost_events = ghost_state"
  by (simp add: ghost_events_def ghost_state_def ghost_session_def demo_env_def demo_db_def
        init_state_def empty_db_def handleClientConnect_def handleLockRequest_def
        handleClientDisconnect_def createSession_def broadcast_def Let_def)

lemma broadcast_all: "broadcast e session m None = map (\<lambda>w. Send w m) (recipients e session)"
  by (simp add: broadcast_def recipients_def filter_map comp_def)

lemma broadcast_except:
  "broadcast e session m (Some cid) = map (\<lambda>w. Send w m) (recipients_except e session cid)"
  by (simp add: broadcast_def recipients_except_def comp_def)

lemma broadcast_sends: "list_all is_send (broadcast e session m x)"
  by (simp add: broadcast_def list_all_iff)

text \<open>With every socket of the roster OPEN, a broadcast reaches the whole roster.\<close>

lemma recipients_all_open:
  assumes "list_all (\<lambda>c. isOpen e (ws c)) (map snd (clients session))"
  shows "recipients e session = map ws (map snd (clients session))"
  using assms by (simp add: recipients_def list_all_iff)

subsection \<open>Messages from a participant that does not hold the lock\<close>



subsection \<open>Lock requests\<close>

text \<open>
  C5, as the code has it. A \<^verbatim>\<open>lock.request\<close> on an existing session. When the lock is
  idle or held by the requester, the session's lock becomes held by the requester with the
  grant time set to the current clock, and one \<^verbatim>\<open>lock.granted\<close> goes to every
  participant in the roster of the session whose socket is OPEN; the requester is one of
  them when it is in the roster with an OPEN socket. Otherwise the state is unchanged; a
  requester in the roster is sent the only message, a \<^verbatim>\<open>lock.denied\<close> carrying the
  holder's name, and a requester outside the roster is sent nothing.
\<close>

theorem lock_request_grant_or_deny:
  assumes "map_of (sessions s) sid = Some session"
  shows "(lockHolder session = None \<or> lockHolder session = Some cid \<longrightarrow>
            step e s (Message w (LockRequest sid cid uname)) =
              (s\<lparr>sessions := AList.update sid
                    (session\<lparr>lockHolder := Some cid, lockUsername := Some uname,
                             lockGrantedAt := Some (now e), lastActivity := now e\<rparr>) (sessions s)\<rparr>,
               map (\<lambda>x. Send x (LockGranted cid uname)) (recipients e session))
          \<and> holder_of (fst (step e s (Message w (LockRequest sid cid uname)))) sid = Some cid
          \<and> (\<forall>c. map_of (clients session) cid = Some c \<and> isOpen e (ws c) \<longrightarrow>
                 ws c \<in> set (recipients e session)))
       \<and> (lockHolder session \<noteq> None \<and> lockHolder session \<noteq> Some cid \<longrightarrow>
            step e s (Message w (LockRequest sid cid uname)) =
              (s, case map_of (clients session) cid of
                    Some c \<Rightarrow> [Send (ws c) (LockDenied (lockUsername session) ''lock_held'')]
                  | None \<Rightarrow> []))"
proof -
  have member: "ws c \<in> set (recipients e session)"
    if "map_of (clients session) cid = Some c" "isOpen e (ws c)" for c
  proof -
    from that(1) have "(cid, c) \<in> set (clients session)" by (rule map_of_SomeD)
    then have "c \<in> snd ` set (clients session)" by force
    with that(2) show ?thesis by (auto simp: recipients_def)
  qed
  show ?thesis
    using assms member
    by (auto simp: handleLockRequest_def Let_def broadcast_all recipients_def holder_of_def
          update_conv' split: option.splits)
qed

theorem lock_request_grant_or_deny_witness:
  "map_of (sessions demo_state) ''S1'' = Some demo_session
   \<and> lockHolder demo_session = Some ''alice''
   \<and> step (demo_env 4000) demo_state (Message 1 (LockRequest ''S1'' ''alice'' ''Alice'')) =
       (demo_state\<lparr>sessions :=
          [(''S1'', demo_session\<lparr>lockGrantedAt := Some 4000, lastActivity := 4000\<rparr>)]\<rparr>,
        [Send 1 (LockGranted ''alice'' ''Alice''), Send 2 (LockGranted ''alice'' ''Alice'')])
   \<and> lockHolder demo_session \<noteq> None \<and> lockHolder demo_session \<noteq> Some ''bob''
   \<and> step (demo_env 4000) demo_state (Message 2 (LockRequest ''S1'' ''bob'' ''Bob'')) =
       (demo_state, [Send 2 (LockDenied (Some ''Alice'') ''lock_held'')])"
  using lock_request_grant_or_deny
          [of demo_state "''S1''" demo_session "''alice''" "demo_env 4000" 1 "''Alice''"]
        lock_request_grant_or_deny
          [of demo_state "''S1''" demo_session "''bob''" "demo_env 4000" 2 "''Bob''"]
  by (simp add: demo_defs recipients_def)

text \<open>
  C5 as stated fails for a requester that is not in the roster. Carol, on socket 9, never
  joined S1. While Alice holds the lock, Carol's request is answered with nothing at all;
  while the lock is idle, her request is granted and the only \<^verbatim>\<open>lock.granted\<close> goes to
  Alice.
\<close>

theorem outsider_request_unanswered:
  "run init_state demo_events = demo_state
   \<and> map_of (sessions demo_state) ''S1'' = Some demo_session
   \<and> lockHolder demo_session = Some ''alice''
   \<and> roster demo_session = [''alice'', ''bob'']
   \<and> step (demo_env 4000) demo_state (Message 9 (LockRequest ''S1'' ''carol'' ''Carol''))
        = (demo_state, [])
   \<and> map_of (sessions solo_state) ''S1'' = Some solo_session
   \<and> lockHolder solo_session = None
   \<and> roster solo_session = [''alice'']
   \<and> snd (step (demo_env 5000) solo_state (Message 9 (LockRequest ''S1'' ''carol'' ''Carol'')))
        = [Send 1 (LockGranted ''carol'' ''Carol'')]
   \<and> holder_of (fst (step (demo_env 5000) solo_state (Message 9 (LockRequest ''S1'' ''carol'' ''Carol''))))
        ''S1'' = Some ''carol''"
  using demo_state_reached
  by (simp add: demo_events_def demo_defs solo_defs roster_def handleLockRequest_def broadcast_def
        holder_of_def Let_def)

subsection \<open>Tool messages\<close>



subsection \<open>Disconnect of the lock holder\<close>




subsection \<open>The timeout check\<close>

lemma map_of_mapped:
  "map_of (map (\<lambda>(k, v). (k, f v)) al) k = map_option f (map_of al k)"
  by (induction al) auto

lemma expire_effects_in_sweep:
  assumes "map_of (sessions s) sid = Some session"
  shows "set (snd (expire e session)) \<subseteq> set (snd (lockTimeoutSweep e s))"
proof -
  from assms have "(sid, session) \<in> set (sessions s)" by (rule map_of_SomeD)
  then show ?thesis by (force simp: lockTimeoutSweep_def)
qed

lemma sweep_lookup:
  "map_of (sessions (fst (lockTimeoutSweep e s))) sid =
     map_option (\<lambda>session. fst (expire e session)) (map_of (sessions s) sid)"
  by (simp add: lockTimeoutSweep_def map_of_mapped)

text \<open>
  What one run of the check does to a held lock whose holder id is a non-empty string and
  whose grant time is not 0: when the grant is more than 30000 ms before the clock, holder,
  holder name and grant time are cleared and \<^verbatim>\<open>lock.released\<close> with reason \<^verbatim>\<open>timeout\<close>
  goes to every participant of that session whose socket is OPEN; when the grant is at most
  30000 ms old, the session is left as it is.
\<close>

theorem sweep_expires_old_locks:
  assumes "map_of (sessions s) sid = Some session"
      and "lockHolder session = Some h" and "lockGrantedAt session = Some g"
  shows "(h \<noteq> [] \<and> g \<noteq> 0 \<and> now e - g > 30000 \<longrightarrow>
            map_of (sessions (fst (lockTimeoutSweep e s))) sid = Some (clear_lock session)
          \<and> expire e session =
              (clear_lock session,
               map (\<lambda>x. Send x (LockReleased (Some ''timeout''))) (recipients e session))
          \<and> (\<forall>x \<in> set (recipients e session).
                Send x (LockReleased (Some ''timeout'')) \<in> set (snd (lockTimeoutSweep e s))))
       \<and> (now e - g \<le> 30000 \<longrightarrow>
            map_of (sessions (fst (lockTimeoutSweep e s))) sid = Some session
          \<and> expire e session = (session, []))
       \<and> lockHolder (clear_lock session) = None
       \<and> lockUsername (clear_lock session) = None
       \<and> lockGrantedAt (clear_lock session) = None
       \<and> LOCK_TIMEOUT_MS = 30000"
proof -
  have old: "expire e session =
              (clear_lock session,
               map (\<lambda>x. Send x (LockReleased (Some ''timeout''))) (recipients e session))"
    if "h \<noteq> []" "g \<noteq> 0" "now e - g > 30000"
    using that assms(2,3)
    by (simp add: expire_def LOCK_TIMEOUT_MS_def broadcast_all recipients_def clear_lock_def)
  have young: "expire e session = (session, [])" if "now e - g \<le> 30000"
    using that assms(2,3) by (simp add: expire_def LOCK_TIMEOUT_MS_def)
  have sent: "Send x (LockReleased (Some ''timeout'')) \<in> set (snd (lockTimeoutSweep e s))"
    if "h \<noteq> []" "g \<noteq> 0" "now e - g > 30000" "x \<in> set (recipients e session)" for x
    using expire_effects_in_sweep [OF assms(1), of e] old [OF that(1,2,3)] that(4) by auto
  show ?thesis
    using old young sent assms(1)
    by (simp add: sweep_lookup clear_lock_def LOCK_TIMEOUT_MS_def)
qed

theorem sweep_expires_old_locks_witness:
  "map_of (sessions demo_state) ''S1'' = Some demo_session
   \<and> lockHolder demo_session = Some ''alice'' \<and> lockGrantedAt demo_session = Some 3000
   \<and> ''alice'' \<noteq> [] \<and> (3000::int) \<noteq> 0 \<and> now (demo_env 33001) - 3000 > 30000
   \<and> map_of (sessions (fst (lockTimeoutSweep (demo_env 33001) demo_state))) ''S1''
        = Some (clear_lock demo_session)
   \<and> expire (demo_env 33001) demo_session =
        (clear_lock demo_session,
         [Send 1 (LockReleased (Some ''timeout'')), Send 2 (LockReleased (Some ''timeout''))])
   \<and> now (demo_env 33000) - 3000 \<le> 30000
   \<and> expire (demo_env 33000) demo_session = (demo_session, [])"
proof -
  have h1: "map_of (sessions demo_state) ''S1'' = Some demo_session"
    by (simp add: demo_state_def)
  have h2: "lockHolder demo_session = Some ''alice''" by (simp add: demo_session_def)
  have h3: "lockGrantedAt demo_session = Some 3000" by (simp add: demo_session_def)
  have r: "recipients (demo_env 33001) demo_session = [1, 2]"
    by (simp add: recipients_def demo_env_def demo_session_def)
  have t1: "now (demo_env 33001) - 3000 > 30000" by (simp add: demo_env_def)
  have t0: "now (demo_env 33000) - 3000 \<le> 30000" by (simp add: demo_env_def)
  show ?thesis
    using sweep_expires_old_locks [OF h1 h2 h3, of "demo_env 33001"]
          sweep_expires_old_locks [OF h1 h2 h3, of "demo_env 33000"] h1 h2 h3 r t1 t0
    by simp
qed

lemma stuck_reached:
  "run init_state
     [(demo_env 1000, Message 1 (ClientConnect ''S1'' ''alice'' ''Alice'')),
      (demo_env 2000, Message 1 (LockRequest ''S1'' [] ''Alice''))] = stuck_state"
  by (simp add: stuck_state_def stuck_session_def demo_defs init_state_def empty_db_def
        handleClientConnect_def handleLockRequest_def createSession_def broadcast_def Let_def)

lemma stuck_sweep: "lockTimeoutSweep (demo_env 100000) stuck_state = (stuck_state, [])"
  by (simp add: stuck_state_def stuck_session_def lockTimeoutSweep_def expire_def)

text \<open>
  C6 says that the check returns every held lock whose grant is more than 30 seconds old
  to idle. The code misses one case. A \<^verbatim>\<open>lock.request\<close> whose \<^verbatim>\<open>clientId\<close> is the empty
  string is granted like any other (\<^verbatim>\<open>lockHolder === null\<close> is the only test, so the lock
  is held and every other request is denied), but the guard of the check,
  \<^verbatim>\<open>session.lockHolder && session.lockGrantedAt\<close>, is false for the empty string: 98
  seconds after the grant the check changes nothing and sends nothing, and the same holds
  at every later tick.
\<close>

theorem sweep_skips_empty_holder:
  "run init_state
     [(demo_env 1000, Message 1 (ClientConnect ''S1'' ''alice'' ''Alice'')),
      (demo_env 2000, Message 1 (LockRequest ''S1'' [] ''Alice''))] = stuck_state
   \<and> map_of (sessions stuck_state) ''S1'' = Some stuck_session
   \<and> lockHolder stuck_session = Some []
   \<and> lockGrantedAt stuck_session = Some 2000
   \<and> now (demo_env 100000) - 2000 > LOCK_TIMEOUT_MS
   \<and> lockTimeoutSweep (demo_env 100000) stuck_state = (stuck_state, [])"
  using stuck_reached stuck_sweep
  by (simp add: stuck_state_def stuck_session_def demo_env_def LOCK_TIMEOUT_MS_def)

subsection \<open>The durable store\<close>

lemma saveMessage_rows:
  "messages_tbl (saveMessage e d sid m) = messages_tbl d @ [message_row e sid m]"
  by (simp add: saveMessage_def updateSessionActivity_def)

lemma saveMessage_tool_rows:
  "tool_results_tbl (saveMessage e d sid m) = tool_results_tbl d"
  by (simp add: saveMessage_def updateSessionActivity_def)

lemma createSession_rows:
  "messages_tbl (createSession e d sid) = messages_tbl d"
  "tool_results_tbl (createSession e d sid) = tool_results_tbl d"
  by (simp_all add: createSession_def)

lemma message_row_session: "m_session_id (message_row e sid m) = sid"
  by (simp add: message_row_def)

lemma getMessages_cong:
  "messages_tbl d = messages_tbl d' \<Longrightarrow> getMessages e d sid = getMessages e d' sid"
  by (simp add: getMessages_def)

lemma getMessages_member:
  assumes "r \<in> set (messages_tbl d)" and "m_session_id r = sid"
  shows "row_entry e r \<in> set (getMessages e d sid)"
  using assms by (simp add: getMessages_def)

subsection \<open>Leaving a session\<close>

text \<open>
  C8. Closing a connection whose session is not in the registry, or whose client is not in
  the roster of its session, changes nothing and has no effect (no error either). When the
  last participant leaves, the session is deleted from the registry and the durable store is
  untouched: after a later connect to the same session id the session exists again, the
  stored messages are the same rows, and a sync answers with the history read from them.
\<close>

theorem disconnect_absent_or_last:
  "(map_of (sessions s) sid = None
      \<or> (\<exists>session. map_of (sessions s) sid = Some session \<and> map_of (clients session) cid = None)
     \<longrightarrow> step e s (Close sid cid) = (s, []))
   \<and> (\<forall>session info.
         map_of (sessions s) sid = Some session \<and> map_of (clients session) cid = Some info
         \<and> AList.delete cid (clients session) = [] \<longrightarrow>
           map_of (sessions (fst (step e s (Close sid cid)))) sid = None
         \<and> db (fst (step e s (Close sid cid))) = db s
         \<and> (sid \<noteq> [] \<and> cid2 \<noteq> [] \<longrightarrow>
              map_of (sessions (fst (step e2 (fst (step e s (Close sid cid)))
                                   (Message w (ClientConnect sid cid2 uname))))) sid \<noteq> None
            \<and> messages_tbl (db (fst (step e2 (fst (step e s (Close sid cid)))
                                   (Message w (ClientConnect sid cid2 uname)))))
                = messages_tbl (db s)
            \<and> (\<exists>parts. snd (step e3 (fst (step e2 (fst (step e s (Close sid cid)))
                                   (Message w (ClientConnect sid cid2 uname))))
                              (Message w (SyncRequest sid cid2)))
                  = [Send w (SyncState sid (getMessages e3 (db s) sid) parts None None)])))"
proof -
  have absent: "step e s (Close sid cid) = (s, [])"
    if "map_of (sessions s) sid = None
        \<or> (\<exists>session. map_of (sessions s) sid = Some session \<and> map_of (clients session) cid = None)"
    using that by (auto simp: handleClientDisconnect_def)
  have last: "map_of (sessions (fst (step e s (Close sid cid)))) sid = None
         \<and> db (fst (step e s (Close sid cid))) = db s
         \<and> (sid \<noteq> [] \<and> cid2 \<noteq> [] \<longrightarrow>
              map_of (sessions (fst (step e2 (fst (step e s (Close sid cid)))
                                   (Message w (ClientConnect sid cid2 uname))))) sid \<noteq> None
            \<and> messages_tbl (db (fst (step e2 (fst (step e s (Close sid cid)))
                                   (Message w (ClientConnect sid cid2 uname)))))
                = messages_tbl (db s)
            \<and> (\<exists>parts. snd (step e3 (fst (step e2 (fst (step e s (Close sid cid)))
                                   (Message w (ClientConnect sid cid2 uname))))
                              (Message w (SyncRequest sid cid2)))
                  = [Send w (SyncState sid (getMessages e3 (db s) sid) parts None None)]))"
    if a: "map_of (sessions s) sid = Some session" "map_of (clients session) cid = Some info"
          "AList.delete cid (clients session) = []" for session info
  proof -
    define s1 where "s1 = fst (step e s (Close sid cid))"
    have s1: "s1 = s\<lparr>sessions := AList.delete sid (sessions s)\<rparr>"
      using a by (simp add: s1_def handleClientDisconnect_def Let_def clear_lock_def)
    have gone: "map_of (sessions s1) sid = None" by (simp add: s1 delete_conv')
    have same: "db s1 = db s" by (simp add: s1)
    have re: "map_of (sessions (fst (step e2 s1 (Message w (ClientConnect sid cid2 uname))))) sid \<noteq> None
        \<and> messages_tbl (db (fst (step e2 s1 (Message w (ClientConnect sid cid2 uname)))))
             = messages_tbl (db s)
        \<and> (\<exists>parts. snd (step e3 (fst (step e2 s1 (Message w (ClientConnect sid cid2 uname))))
                              (Message w (SyncRequest sid cid2)))
                  = [Send w (SyncState sid (getMessages e3 (db s) sid) parts None None)])"
      if "sid \<noteq> []" "cid2 \<noteq> []"
      using that gone same
      by (simp add: handleClientConnect_def handleSyncRequest_def Let_def update_conv'
            createSession_rows getMessages_cong [of "createSession e2 (db s) sid" "db s"])
    show ?thesis using gone same re by (simp add: s1_def)
  qed
  show ?thesis using absent last by blast
qed


theorem disconnect_absent_or_last_witness:
  "map_of (sessions solo_state) ''S1'' = Some solo_session
   \<and> map_of (clients solo_session) ''bob'' = None
   \<and> step (demo_env 5000) solo_state (Close ''S1'' ''bob'') = (solo_state, [])
   \<and> map_of (clients solo_session) ''alice'' =
        Some \<lparr>clientId = ''alice'', username = ''Alice'', ws = 1, connectedAt = 1000\<rparr>
   \<and> AList.delete ''alice'' (clients solo_session) = []
   \<and> map_of (sessions (fst (step (demo_env 5000) solo_state (Close ''S1'' ''alice'')))) ''S1'' = None
   \<and> snd (step (demo_env 7000)
            (fst (step (demo_env 6000) (fst (step (demo_env 5000) solo_state (Close ''S1'' ''alice'')))
                    (Message 2 (ClientConnect ''S1'' ''bob'' ''Bob''))))
            (Message 2 (SyncRequest ''S1'' ''bob'')))
       = [Send 2 (SyncState ''S1''
            [\<lparr>e_id = ''msg_r1'', e_role = User, e_content = JStr ''hello'',
              e_author_username = Some ''Alice'', e_timestamp = 4000\<rparr>]
            [(''bob'', ''Bob'')] None None)]"
  using disconnect_absent_or_last [of solo_state "''S1''" "''bob''" "demo_env 5000"]
        disconnect_absent_or_last [of solo_state "''S1''" "''alice''" "demo_env 5000" "''bob''"
           "demo_env 6000" 2 "''Bob''" "demo_env 7000"]
  by (simp add: solo_defs demo_env_def handleClientDisconnect_def handleClientConnect_def
        handleSyncRequest_def createSession_def getMessages_def row_entry_def broadcast_def
        clear_lock_def Let_def)

subsection \<open>Write before broadcast\<close>

lemma sync_reply:
  assumes "map_of (sessions s) sid = Some session"
  shows "\<exists>parts h u. snd (step e s (Message w (SyncRequest sid cid))) =
           [Send w (SyncState sid (getMessages e (db s) sid) parts h u)]"
  using assms by (simp add: handleSyncRequest_def)

lemma user_message_step:
  assumes "map_of (sessions s) sid = Some session" "lockHolder session = Some cid"
  shows "handleUserMessage e s sid cid uname line =
           (s\<lparr>sessions := AList.update sid (session\<lparr>lastActivity := now e\<rparr>) (sessions s),
              db := saveMessage e (db s) sid \<lparr>nm_id = None, nm_role = User, nm_content = JStr line,
                        nm_author_username = Some uname\<rparr>\<rparr>,
            Persist (SaveMessage (user_row e sid uname line))
              # map (\<lambda>x. Send x (UserMessageBroadcast uname line (now e)))
                  (recipients_except e session cid))"
  using assms
  by (simp add: handleUserMessage_def Let_def broadcast_except recipients_except_def user_row_def)

lemma assistant_complete_step:
  assumes "map_of (sessions s) sid = Some session" "lockHolder session = Some cid"
  shows "handleAssistantComplete e s sid cid message =
           (s\<lparr>sessions := AList.update sid (session\<lparr>lastActivity := now e\<rparr>) (sessions s),
              db := saveMessage e (db s) sid \<lparr>nm_id = None, nm_role = Assistant,
                        nm_content = message_content message, nm_author_username = None\<rparr>\<rparr>,
            Persist (SaveMessage (assistant_row e sid message))
              # map (\<lambda>x. Send x (AssistantCompleteBroadcast message))
                  (recipients_except e session cid))"
  using assms
  by (simp add: handleAssistantComplete_def Let_def broadcast_except recipients_except_def
        assistant_row_def)

text \<open>
  C3, as the code has it. On an existing session the handlers of \<^verbatim>\<open>user.message\<close> and
  \<^verbatim>\<open>assistant.complete\<close> (from the lock holder) and of \<^verbatim>\<open>tool.result\<close> first write to
  the durable store and only then send: the effects are one store call followed by sends
  only. After a \<^verbatim>\<open>user.message\<close> or \<^verbatim>\<open>assistant.complete\<close> the new row is in the
  messages of the store, and a sync handled in the resulting state answers with a log that
  contains its entry. After a \<^verbatim>\<open>tool.result\<close> the new row is in the tool results of the
  store, and the log of a sync is the one the messages gave before, since a sync reads the
  messages only.
\<close>

theorem persist_before_broadcast:
  assumes "map_of (sessions s) sid = Some session"
  shows
   "(lockHolder session = Some cid \<longrightarrow>
       snd (step e s (Message w (UserMessage sid cid uname line))) =
          Persist (SaveMessage (user_row e sid uname line))
            # map (\<lambda>x. Send x (UserMessageBroadcast uname line (now e)))
                (recipients_except e session cid)
     \<and> messages_tbl (db (fst (step e s (Message w (UserMessage sid cid uname line)))))
          = messages_tbl (db s) @ [user_row e sid uname line]
     \<and> (\<exists>parts h u.
           snd (step late (fst (step e s (Message w (UserMessage sid cid uname line))))
                  (Message peer (SyncRequest sid reader)))
             = [Send peer (SyncState sid
                  (getMessages late (db (fst (step e s (Message w (UserMessage sid cid uname line))))) sid)
                  parts h u)])
     \<and> row_entry late (user_row e sid uname line)
          \<in> set (getMessages late (db (fst (step e s (Message w (UserMessage sid cid uname line))))) sid))
  \<and> (lockHolder session = Some cid \<longrightarrow>
       snd (step e s (Message w (AssistantComplete sid cid message))) =
          Persist (SaveMessage (assistant_row e sid message))
            # map (\<lambda>x. Send x (AssistantCompleteBroadcast message))
                (recipients_except e session cid)
     \<and> messages_tbl (db (fst (step e s (Message w (AssistantComplete sid cid message)))))
          = messages_tbl (db s) @ [assistant_row e sid message]
     \<and> (\<exists>parts h u.
           snd (step late (fst (step e s (Message w (AssistantComplete sid cid message))))
                  (Message peer (SyncRequest sid reader)))
             = [Send peer (SyncState sid
                  (getMessages late (db (fst (step e s (Message w (AssistantComplete sid cid message))))) sid)
                  parts h u)])
     \<and> row_entry late (assistant_row e sid message)
          \<in> set (getMessages late (db (fst (step e s (Message w (AssistantComplete sid cid message))))) sid))
  \<and> snd (step e s (Message w (ToolResult sid cid toolUseId payload isError))) =
          Persist (SaveToolResult (tool_row e sid toolUseId payload cid))
            # map (\<lambda>x. Send x (ToolResultBroadcast toolUseId payload isError)) (recipients e session)
  \<and> tool_results_tbl (db (fst (step e s (Message w (ToolResult sid cid toolUseId payload isError)))))
          = tool_results_tbl (db s) @ [tool_row e sid toolUseId payload cid]
  \<and> (\<exists>parts h u.
           snd (step late (fst (step e s (Message w (ToolResult sid cid toolUseId payload isError))))
                  (Message peer (SyncRequest sid reader)))
             = [Send peer (SyncState sid (getMessages late (db s) sid) parts h u)])"
proof -
  let ?u = "handleUserMessage e s sid cid uname line"
  let ?a = "handleAssistantComplete e s sid cid message"
  let ?t = "handleToolResult e s sid cid toolUseId payload isError"
  have u: "snd ?u = Persist (SaveMessage (user_row e sid uname line))
            # map (\<lambda>x. Send x (UserMessageBroadcast uname line (now e)))
                (recipients_except e session cid)
     \<and> messages_tbl (db (fst ?u)) = messages_tbl (db s) @ [user_row e sid uname line]
     \<and> (\<exists>parts h u. snd (step late (fst ?u) (Message peer (SyncRequest sid reader)))
             = [Send peer (SyncState sid (getMessages late (db (fst ?u)) sid) parts h u)])
     \<and> row_entry late (user_row e sid uname line) \<in> set (getMessages late (db (fst ?u)) sid)"
    if h: "lockHolder session = Some cid"
  proof -
    have st: "map_of (sessions (fst ?u)) sid = Some (session\<lparr>lastActivity := now e\<rparr>)"
      by (simp add: user_message_step [OF assms h] update_conv')
    have rows: "messages_tbl (db (fst ?u)) = messages_tbl (db s) @ [user_row e sid uname line]"
      by (simp add: user_message_step [OF assms h] saveMessage_rows user_row_def)
    have mem: "row_entry late (user_row e sid uname line) \<in> set (getMessages late (db (fst ?u)) sid)"
      by (rule getMessages_member) (simp_all add: rows user_row_def message_row_session)
    show ?thesis
      using sync_reply [OF st] rows mem by (simp add: user_message_step [OF assms h])
  qed
  have a: "snd ?a = Persist (SaveMessage (assistant_row e sid message))
            # map (\<lambda>x. Send x (AssistantCompleteBroadcast message))
                (recipients_except e session cid)
     \<and> messages_tbl (db (fst ?a)) = messages_tbl (db s) @ [assistant_row e sid message]
     \<and> (\<exists>parts h u. snd (step late (fst ?a) (Message peer (SyncRequest sid reader)))
             = [Send peer (SyncState sid (getMessages late (db (fst ?a)) sid) parts h u)])
     \<and> row_entry late (assistant_row e sid message) \<in> set (getMessages late (db (fst ?a)) sid)"
    if h: "lockHolder session = Some cid"
  proof -
    have st: "map_of (sessions (fst ?a)) sid = Some (session\<lparr>lastActivity := now e\<rparr>)"
      by (simp add: assistant_complete_step [OF assms h] update_conv')
    have rows: "messages_tbl (db (fst ?a)) = messages_tbl (db s) @ [assistant_row e sid message]"
      by (simp add: assistant_complete_step [OF assms h] saveMessage_rows assistant_row_def)
    have mem: "row_entry late (assistant_row e sid message) \<in> set (getMessages late (db (fst ?a)) sid)"
      by (rule getMessages_member) (simp_all add: rows assistant_row_def message_row_session)
    show ?thesis
      using sync_reply [OF st] rows mem by (simp add: assistant_complete_step [OF assms h])
  qed
  have t: "snd ?t = Persist (SaveToolResult (tool_row e sid toolUseId payload cid))
            # map (\<lambda>x. Send x (ToolResultBroadcast toolUseId payload isError)) (recipients e session)
     \<and> tool_results_tbl (db (fst ?t)) = tool_results_tbl (db s) @ [tool_row e sid toolUseId payload cid]
     \<and> (\<exists>parts h u. snd (step late (fst ?t) (Message peer (SyncRequest sid reader)))
             = [Send peer (SyncState sid (getMessages late (db s) sid) parts h u)])"
  proof -
    have eq: "?t = (s\<lparr>db := saveToolResult e (db s) sid toolUseId payload cid\<rparr>,
                   Persist (SaveToolResult (tool_row e sid toolUseId payload cid))
                   # map (\<lambda>x. Send x (ToolResultBroadcast toolUseId payload isError))
                       (recipients e session))"
      using assms by (simp add: handleToolResult_def broadcast_all)
    have st: "map_of (sessions (fst ?t)) sid = Some session" using assms by (simp add: eq)
    have g: "getMessages late (db (fst ?t)) sid = getMessages late (db s) sid"
      by (rule getMessages_cong) (simp add: eq saveToolResult_def)
    show ?thesis using sync_reply [OF st, of late peer reader] g by (simp add: eq saveToolResult_def)
  qed
  show ?thesis using u a t by (simp only: step.simps dispatch.simps) blast
qed


theorem persist_before_broadcast_witness:
  "map_of (sessions demo_state) ''S1'' = Some demo_session
   \<and> lockHolder demo_session = Some ''alice''
   \<and> snd (step (demo_env 4000) demo_state (Message 1 (UserMessage ''S1'' ''alice'' ''Alice'' ''hi''))) =
       [Persist (SaveMessage
          \<lparr>m_id = ''msg_r1'', m_session_id = ''S1'', m_role = User, m_content = Plain ''hi'',
            m_author_username = Some ''Alice'', m_timestamp = 4000\<rparr>),
        Send 2 (UserMessageBroadcast ''Alice'' ''hi'' 4000)]
   \<and> snd (step (demo_env 4001)
            (fst (step (demo_env 4000) demo_state (Message 1 (UserMessage ''S1'' ''alice'' ''Alice'' ''hi''))))
            (Message 2 (SyncRequest ''S1'' ''bob''))) =
       [Send 2 (SyncState ''S1''
          [\<lparr>e_id = ''msg_r1'', e_role = User, e_content = JStr ''hi'',
            e_author_username = Some ''Alice'', e_timestamp = 4000\<rparr>]
          [(''alice'', ''Alice''), (''bob'', ''Bob'')] (Some ''alice'') (Some ''Alice''))]"
  using persist_before_broadcast [where s = demo_state and sid = "''S1''" and session = demo_session
          and cid = "''alice''" and e = "demo_env 4000" and w = 1 and uname = "''Alice''"
          and line = "''hi''" and late = "demo_env 4001" and peer = 2 and reader = "''bob''"
          and message = "\<lparr>message_content = JStr ''x'', message_other = JNull\<rparr>"
          and toolUseId = "''tu1''" and payload = "JStr ''ok''" and isError = False]
  by (simp add: demo_defs handleUserMessage_def handleSyncRequest_def saveMessage_def
        updateSessionActivity_def message_row_def generateMessageId_def getMessages_def
        row_entry_def broadcast_def Let_def user_row_def recipients_except_def)

text \<open>
  C3 as stated fails for \<^verbatim>\<open>tool.result\<close>: the result is stored and broadcast, and the
  sync that follows the broadcast answers with an empty log.
\<close>

theorem tool_result_absent_from_sync:
  "snd (step (demo_env 4000) demo_state (Message 1 (ToolResult ''S1'' ''alice'' ''tu1'' (JStr ''ok'') False))) =
       [Persist (SaveToolResult
          \<lparr>t_id = ''r1'', t_session_id = ''S1'', t_tool_use_id = ''tu1'',
            t_content = Stringified (JStr ''ok''), t_client_id = ''alice'', t_timestamp = 4000\<rparr>),
        Send 1 (ToolResultBroadcast ''tu1'' (JStr ''ok'') False),
        Send 2 (ToolResultBroadcast ''tu1'' (JStr ''ok'') False)]
   \<and> snd (step (demo_env 4001)
            (fst (step (demo_env 4000) demo_state
                    (Message 1 (ToolResult ''S1'' ''alice'' ''tu1'' (JStr ''ok'') False))))
            (Message 2 (SyncRequest ''S1'' ''bob''))) =
       [Send 2 (SyncState ''S1'' []
          [(''alice'', ''Alice''), (''bob'', ''Bob'')] (Some ''alice'') (Some ''Alice''))]"
  by (simp add: demo_defs handleToolResult_def handleSyncRequest_def saveToolResult_def tool_row_def
        generateId_def getMessages_def broadcast_def)

subsection \<open>The lock holder and the roster\<close>



lemma list_all_update:
  "P (k, v) \<Longrightarrow> list_all P al \<Longrightarrow> list_all P (AList.update k v al)"
  by (induction al) auto

lemma list_all_delete: "list_all P al \<Longrightarrow> list_all P (AList.delete k al)"
  by (simp add: AList.delete_eq list_all_iff)

lemma holder_connected_lookup:
  assumes "holder_connected s" and "map_of (sessions s) sid = Some session"
  shows "holder_in_roster session"
proof -
  from assms(2) have "(sid, session) \<in> set (sessions s)" by (rule map_of_SomeD)
  with assms(1) show ?thesis by (auto simp: holder_connected_def list_all_iff)
qed

lemma holder_connected_update:
  assumes "holder_connected s" and "holder_in_roster session"
  shows "holder_connected (s\<lparr>sessions := AList.update sid session (sessions s)\<rparr>)"
  using assms by (simp add: holder_connected_def list_all_update)

lemma holder_connected_delete:
  assumes "holder_connected s"
  shows "holder_connected (s\<lparr>sessions := AList.delete sid (sessions s)\<rparr>)"
  using assms by (simp add: holder_connected_def list_all_delete)

lemma holder_connected_db [simp]: "holder_connected (s\<lparr>db := d\<rparr>) = holder_connected s"
  by (simp add: holder_connected_def)

lemma holder_in_roster_activity [simp]:
  "holder_in_roster (session\<lparr>lastActivity := t\<rparr>) = holder_in_roster session"
  by (simp add: holder_in_roster_def roster_def split: option.splits)

lemma holder_in_roster_clear [simp]: "holder_in_roster (clear_lock session)"
  by (simp add: holder_in_roster_def clear_lock_def)

lemma connect_keeps:
  assumes "holder_connected s"
  shows "holder_connected (fst (handleClientConnect e s w sid cid uname))"
proof (cases "sid = [] \<or> cid = []")
  case True
  then show ?thesis using assms by (auto simp: handleClientConnect_def)
next
  case False
  show ?thesis
  proof (cases "map_of (sessions s) sid")
    case None
    with False assms show ?thesis
      by (simp add: handleClientConnect_def Let_def holder_connected_def list_all_update
            holder_in_roster_def)
  next
    case (Some session)
    from holder_connected_lookup [OF assms Some]
    have "holder_in_roster
            (session\<lparr>clients := AList.update cid
                 \<lparr>clientId = cid, username = (if uname = [] then ''Anonymous'' else uname),
                  ws = w, connectedAt = now e\<rparr> (clients session),
               lastActivity := now e\<rparr>)"
      by (auto simp: holder_in_roster_def roster_def dom_update split: option.splits)
    with False Some assms show ?thesis
      by (simp add: handleClientConnect_def Let_def holder_connected_def list_all_update)
  qed
qed

lemma request_keeps:
  assumes "holder_connected s" and "member_request s (Message w (LockRequest sid cid uname))"
  shows "holder_connected (fst (handleLockRequest e s sid cid uname))"
proof (cases "map_of (sessions s) sid")
  case None
  then show ?thesis using assms by (simp add: handleLockRequest_def)
next
  case (Some session)
  with assms(2) have "cid \<in> set (roster session)" by simp
  then have "holder_in_roster (session\<lparr>lockHolder := Some cid, lockUsername := Some uname,
                                   lockGrantedAt := Some (now e), lastActivity := now e\<rparr>)"
    by (simp add: holder_in_roster_def roster_def)
  with Some assms(1) show ?thesis
    by (auto simp: handleLockRequest_def Let_def holder_connected_def list_all_update
          split: option.splits)
qed

lemma release_keeps:
  assumes "holder_connected s"
  shows "holder_connected (fst (handleLockRelease e s sid cid))"
  using assms
  by (auto simp: handleLockRelease_def holder_connected_def list_all_update split: option.splits)

lemma activity_keeps:
  assumes "holder_connected s" and "map_of (sessions s) sid = Some session"
  shows "holder_connected (s\<lparr>sessions := AList.update sid (session\<lparr>lastActivity := t\<rparr>) (sessions s),
                            db := d\<rparr>)"
    and "holder_connected (s\<lparr>sessions := AList.update sid (session\<lparr>lastActivity := t\<rparr>) (sessions s)\<rparr>)"
  using holder_connected_lookup [OF assms] assms(1)
  by (simp_all add: holder_connected_def list_all_update)

lemma user_keeps:
  assumes "holder_connected s"
  shows "holder_connected (fst (handleUserMessage e s sid cid uname line))"
  using assms activity_keeps
  by (auto simp: handleUserMessage_def Let_def split: option.splits)

lemma chunk_keeps:
  assumes "holder_connected s"
  shows "holder_connected (fst (handleAssistantChunk e s sid cid delta))"
  using assms activity_keeps
  by (auto simp: handleAssistantChunk_def Let_def split: option.splits)

lemma complete_keeps:
  assumes "holder_connected s"
  shows "holder_connected (fst (handleAssistantComplete e s sid cid message))"
  using assms activity_keeps
  by (auto simp: handleAssistantComplete_def Let_def split: option.splits)

lemma disconnect_keeps:
  assumes "holder_connected s"
  shows "holder_connected (fst (handleClientDisconnect e s sid cid))"
proof (cases "map_of (sessions s) sid")
  case None
  then show ?thesis using assms by (simp add: handleClientDisconnect_def)
next
  case (Some session)
  show ?thesis
  proof (cases "map_of (clients session) cid")
    case None
    with Some assms show ?thesis by (simp add: handleClientDisconnect_def)
  next
    case (Some info)
    let ?rest = "session\<lparr>clients := AList.delete cid (clients session)\<rparr>"
    have other: "holder_in_roster ?rest" if "lockHolder session \<noteq> Some cid"
      using holder_connected_lookup [OF assms \<open>map_of (sessions s) sid = Some session\<close>] that
      by (auto simp: holder_in_roster_def roster_def delete_keys split: option.splits)
    have "holder_in_roster (if lockHolder ?rest = Some cid then clear_lock ?rest else ?rest)"
      using other by simp
    with Some \<open>map_of (sessions s) sid = Some session\<close> assms show ?thesis
      by (simp add: handleClientDisconnect_def Let_def holder_connected_def list_all_update
            list_all_delete)
  qed
qed

lemma expire_keeps: "holder_in_roster session \<Longrightarrow> holder_in_roster (fst (expire e session))"
  by (simp add: expire_def split: option.splits)

lemma sweep_keeps:
  assumes "holder_connected s"
  shows "holder_connected (fst (lockTimeoutSweep e s))"
  using assms
  by (auto simp: lockTimeoutSweep_def holder_connected_def list_all_iff expire_keeps)

lemma step_keeps:
  assumes "holder_connected s" and "member_request s ev"
  shows "holder_connected (fst (step e s ev))"
proof (cases ev)
  case (Message w m)
  with assms show ?thesis
    by (cases m)
       (simp_all add: connect_keeps request_keeps release_keeps user_keeps chunk_keeps
          complete_keeps handleSyncRequest_def handleToolExecute_def handleToolResult_def
          split: option.splits)
next
  case (Close sid cid)
  with assms show ?thesis by (simp add: disconnect_keeps)
next
  case Tick
  with assms show ?thesis by (simp add: sweep_keeps)
qed

lemma run_keeps:
  "holder_connected s \<Longrightarrow> requests_from_members s evs \<Longrightarrow> holder_connected (run s evs)"
proof (induction evs arbitrary: s)
  case Nil
  then show ?case by simp
next
  case (Cons x evs)
  obtain e ev where x: "x = (e, ev)" by (cases x)
  from Cons.prems have "holder_connected (fst (step e s ev))"
    by (simp add: x step_keeps)
  moreover from Cons.prems have "requests_from_members (fst (step e s ev)) evs"
    by (simp add: x)
  ultimately show ?case using Cons.IH by (simp add: x)
qed


lemma connect_holder:
  "holder_of (fst (handleClientConnect e s w sid' cid uname)) sid = Some c \<Longrightarrow> holder_of s sid = Some c"
  by (auto simp: handleClientConnect_def Let_def holder_of_def update_conv'
        split: option.splits if_splits)

lemma request_holder:
  "holder_of (fst (handleLockRequest e s sid' cid uname)) sid = Some c \<Longrightarrow>
     holder_of s sid = Some c \<or> (holder_of s sid = None \<and> sid' = sid \<and> cid = c)"
  by (auto simp: handleLockRequest_def Let_def holder_of_def update_conv'
        split: option.splits if_splits)

lemma release_holder:
  "holder_of (fst (handleLockRelease e s sid' cid)) sid = Some c \<Longrightarrow> holder_of s sid = Some c"
  by (auto simp: handleLockRelease_def holder_of_def update_conv' clear_lock_def
        split: option.splits if_splits)

lemma user_holder:
  "holder_of (fst (handleUserMessage e s sid' cid uname line)) sid = Some c \<Longrightarrow> holder_of s sid = Some c"
  by (auto simp: handleUserMessage_def Let_def holder_of_def update_conv'
        split: option.splits if_splits)

lemma chunk_holder:
  "holder_of (fst (handleAssistantChunk e s sid' cid delta)) sid = Some c \<Longrightarrow> holder_of s sid = Some c"
  by (auto simp: handleAssistantChunk_def Let_def holder_of_def update_conv'
        split: option.splits if_splits)

lemma complete_holder:
  "holder_of (fst (handleAssistantComplete e s sid' cid message)) sid = Some c \<Longrightarrow>
     holder_of s sid = Some c"
  by (auto simp: handleAssistantComplete_def Let_def holder_of_def update_conv'
        split: option.splits if_splits)

lemma disconnect_holder:
  "holder_of (fst (handleClientDisconnect e s sid' cid)) sid = Some c \<Longrightarrow> holder_of s sid = Some c"
  by (auto simp: handleClientDisconnect_def Let_def holder_of_def update_conv' delete_conv'
        clear_lock_def split: option.splits if_splits)

lemma sweep_holder:
  "holder_of (fst (lockTimeoutSweep e s)) sid = Some c \<Longrightarrow> holder_of s sid = Some c"
  by (auto simp: holder_of_def sweep_lookup expire_def clear_lock_def
        split: option.splits if_splits)

lemma passive_holder:
  "holder_of (fst (handleSyncRequest e s w sid' cid)) sid = holder_of s sid"
  "holder_of (fst (handleToolExecute e s sid' cid toolUseId toolName input)) sid = holder_of s sid"
  "holder_of (fst (handleToolResult e s sid' cid toolUseId payload isError)) sid = holder_of s sid"
  by (simp_all add: handleSyncRequest_def handleToolExecute_def handleToolResult_def holder_of_def
        split: option.splits)

lemma dispatch_holder:
  assumes "holder_of (fst (dispatch e s w m)) sid = Some c"
  shows "holder_of s sid = Some c
         \<or> (holder_of s sid = None \<and> (\<exists>u. m = LockRequest sid c u))"
proof (cases m)
  case (ClientConnect x1 x2 x3)
  with assms show ?thesis by (auto dest: connect_holder)
next
  case (SyncRequest x1 x2)
  with assms show ?thesis by (simp add: passive_holder)
next
  case (LockRequest x1 x2 x3)
  with assms show ?thesis by (auto dest: request_holder)
next
  case (LockRelease x1 x2)
  with assms show ?thesis by (auto dest: release_holder)
next
  case (UserMessage x1 x2 x3 x4)
  with assms show ?thesis by (auto dest: user_holder)
next
  case (AssistantChunk x1 x2 x3)
  with assms show ?thesis by (auto dest: chunk_holder)
next
  case (AssistantComplete x1 x2 x3)
  with assms show ?thesis by (auto dest: complete_holder)
next
  case (ToolExecute x1 x2 x3 x4 x5)
  with assms show ?thesis by (simp add: passive_holder)
next
  case (ToolResult x1 x2 x3 x4 x5)
  with assms show ?thesis by (simp add: passive_holder)
next
  case (UnknownType x)
  with assms show ?thesis by simp
qed

lemma step_holder:
  assumes "holder_of (fst (step e s ev)) sid = Some c"
  shows "holder_of s sid = Some c
         \<or> (holder_of s sid = None \<and> (\<exists>w u. ev = Message w (LockRequest sid c u)))"
proof (cases ev)
  case (Message w m)
  with assms dispatch_holder [of e s w m sid c] show ?thesis by auto
next
  case (Close sid' cid)
  with assms show ?thesis by (auto dest: disconnect_holder)
next
  case Tick
  with assms show ?thesis by (auto dest: sweep_holder)
qed

text \<open>
  C1, as the code has it. The lock holder of a session is one nullable field, so two
  recorded holders are equal. A step gives it a new non-null value only by handling a
  \<^verbatim>\<open>lock.request\<close> of that client for that session while the field is null. The request
  handler does not look at the roster: the holder is a participant of the session after
  every run in which each \<^verbatim>\<open>lock.request\<close> names a client that is in the roster of its
  session when the relay handles it (connects, releases, disconnects, timeouts and all
  other messages are unrestricted).
\<close>

theorem lock_holder_invariant:
  "(holder_connected s \<and> requests_from_members s evs \<longrightarrow> holder_connected (run s evs))
   \<and> (holder_of (fst (step e t ev)) sid = Some c \<longrightarrow>
        holder_of t sid = Some c
        \<or> (holder_of t sid = None \<and> (\<exists>w u. ev = Message w (LockRequest sid c u))))
   \<and> (holder_of t sid = Some c1 \<and> holder_of t sid = Some c2 \<longrightarrow> c1 = c2)"
proof -
  have single: "holder_of t sid = Some c1 \<and> holder_of t sid = Some c2 \<longrightarrow> c1 = c2"
    by auto
  show ?thesis
    using run_keeps [of s evs] step_holder [of e t ev sid c] single by blast
qed

text \<open>
  C1 as stated fails: after the second run Bob holds the lock of S1 and the roster of S1
  is Alice alone.
\<close>

theorem holder_not_in_roster:
  "run init_state ghost_events = ghost_state
   \<and> holder_of ghost_state ''S1'' = Some ''bob''
   \<and> map_of (sessions ghost_state) ''S1'' = Some ghost_session
   \<and> roster ghost_session = [''alice'']
   \<and> \<not> holder_connected ghost_state"
  using ghost_reached
  by (simp add: ghost_state_def ghost_session_def holder_of_def roster_def holder_connected_def
        holder_in_roster_def)

lemma demo_members: "requests_from_members init_state demo_events"
  by (simp add: demo_events_def demo_env_def init_state_def empty_db_def handleClientConnect_def
        createSession_def broadcast_def Let_def roster_def)

theorem lock_holder_invariant_witness:
  "holder_connected init_state
   \<and> requests_from_members init_state demo_events
   \<and> holder_connected (run init_state demo_events)
   \<and> run init_state demo_events = demo_state
   \<and> holder_of (fst (step (demo_env 4600) solo_state (Message 1 (LockRequest ''S1'' ''alice'' ''Alice''))))
        ''S1'' = Some ''alice''
   \<and> holder_of solo_state ''S1'' = None"
proof -
  have a: "holder_connected init_state" by (simp add: holder_connected_def init_state_def)
  have b: "holder_of (fst (step (demo_env 4600) solo_state
              (Message 1 (LockRequest ''S1'' ''alice'' ''Alice'')))) ''S1'' = Some ''alice''"
    by (simp add: solo_state_def solo_session_def handleLockRequest_def holder_of_def Let_def)
  have c: "holder_of solo_state ''S1'' = None"
    by (simp add: solo_state_def solo_session_def holder_of_def)
  have d: "run init_state demo_events = demo_state"
    using demo_state_reached by (simp add: demo_events_def)
  show ?thesis
    using lock_holder_invariant [of init_state demo_events "demo_env 4600" solo_state
            "Message 1 (LockRequest ''S1'' ''alice'' ''Alice'')" "''S1''" "''alice''" "''alice''" "''alice''"]
          a b c d demo_members
    by simp
qed

section \<open>Properties of the conversation repair\<close>



lemma validate_loop_snoc:
  "validate_loop r (ms @ [m]) = validate_entry (validate_loop r ms) m"
  by (induction ms arbitrary: r) simp_all

lemma answered_filter:
  "filter (\<lambda>b. block_tool_use_id b \<in> set (invocation_ids prev)) (filter is_tool_result (blocks_of m))
     = answered prev m"
  by (simp add: answered_def conj_commute)

lemma validate_entry_passes:
  assumes "\<not> carries_results m"
  shows "validate_entry r m = r @ [m]"
  using assms
  by (auto simp: validate_entry_def carries_results_def blocks_of_def split: param_content.splits)

lemma validate_entry_repairs:
  assumes "carries_results m"
  shows "validate_entry r m =
           (if r \<noteq> [] \<and> role (last r) = Assistant \<and> answered (last r) m \<noteq> []
            then r @ [repaired_entry (last r) m] else r)"
proof -
  from assms obtain bs where bs: "content m = Blocks bs" and u: "role m = User"
    and tr: "filter is_tool_result bs \<noteq> []"
    by (auto simp: carries_results_def blocks_of_def split: param_content.splits)
  show ?thesis
    using bs u tr
    by (auto simp: validate_entry_def Let_def answered_def invocation_ids_def repaired_entry_def
          blocks_of_def conj_commute split: param_content.splits)
qed

lemma paired_after_snoc:
  "paired_after p (r @ [m]) = (paired_after p r \<and> justified (prev_of p r) m)"
  by (induction r arbitrary: p) (auto simp: prev_of_def justified_def)

lemma repaired_results:
  "filter is_tool_result (blocks_of (repaired_entry prev m)) = answered prev m"
proof -
  have "filter is_tool_result (answered prev m) = answered prev m"
    by (simp add: answered_def conj_commute)
  then show ?thesis by (simp add: repaired_entry_def blocks_of_def)
qed

lemma repaired_justified:
  assumes "role prev = Assistant"
  shows "justified (Some prev) (repaired_entry prev m)"
  using assms by (simp add: justified_def repaired_results) (simp add: answered_def list_all_iff)

lemma repaired_carries:
  "answered prev m \<noteq> [] \<Longrightarrow> carries_results (repaired_entry prev m)"
  by (simp add: carries_results_def repaired_results) (simp add: repaired_entry_def)

lemma validate_entry_paired:
  assumes "paired_after None r"
  shows "paired_after None (validate_entry r m)"
proof (cases "carries_results m")
  case False
  then show ?thesis
    using assms by (simp add: validate_entry_passes paired_after_snoc justified_def)
next
  case True
  show ?thesis
  proof (cases "r \<noteq> [] \<and> role (last r) = Assistant \<and> answered (last r) m \<noteq> []")
    case False
    have "validate_entry r m = r"
      unfolding validate_entry_repairs [OF True] using False by (rule if_not_P)
    with assms show ?thesis by simp
  next
    case yes: True
    have eq: "validate_entry r m = r @ [repaired_entry (last r) m]"
      unfolding validate_entry_repairs [OF True] using yes by (rule if_P)
    from yes have "justified (prev_of None r) (repaired_entry (last r) m)"
      by (simp add: prev_of_def repaired_justified)
    with assms show ?thesis by (simp add: eq paired_after_snoc)
  qed
qed

lemma validate_loop_paired:
  "paired_after None r \<Longrightarrow> paired_after None (validate_loop r ms)"
  by (induction ms arbitrary: r) (simp_all add: validate_entry_paired)

lemma validate_entry_others:
  "filter (\<lambda>x. \<not> carries_results x) (validate_entry r m)
     = filter (\<lambda>x. \<not> carries_results x) (r @ [m])"
proof (cases "carries_results m")
  case False
  then show ?thesis by (simp add: validate_entry_passes)
next
  case True
  then show ?thesis by (simp add: validate_entry_repairs repaired_carries)
qed

lemma validate_loop_others:
  "filter (\<lambda>x. \<not> carries_results x) (validate_loop r ms)
     = filter (\<lambda>x. \<not> carries_results x) (r @ ms)"
proof (induction ms arbitrary: r)
  case Nil
  then show ?case by simp
next
  case (Cons m ms)
  have "filter (\<lambda>x. \<not> carries_results x) (validate_loop (validate_entry r m) ms)
          = filter (\<lambda>x. \<not> carries_results x) (validate_entry r m @ ms)"
    by (rule Cons.IH)
  also have "\<dots> = filter (\<lambda>x. \<not> carries_results x) ((r @ [m]) @ ms)"
    by (simp only: filter_append validate_entry_others)
  finally show ?case by simp
qed

text \<open>
  C2. The repair is a left-to-right pass, so its result on a sequence extended by one entry
  is its result on the sequence, extended as follows. A user entry that carries tool-result
  blocks is kept only when the last entry of the repaired sequence so far is an assistant
  entry and at least one of its tool-result blocks refers to a \<^verbatim>\<open>tool_use\<close> id of that
  assistant entry; the kept entry has role user and holds the entry's non-tool-result
  blocks, unchanged and in order, followed by exactly the tool-result blocks that refer to
  such an id. Otherwise the entry is dropped. Every other entry is appended as it is. Hence
  the result is paired (each user entry with tool results directly follows an assistant
  entry that invoked every one of them), and the entries without tool results are those
  of the input, in the same order.
\<close>

theorem validateToolMessages_repairs:
  "validateToolMessages (ms @ [m]) =
     (if carries_results m
      then (if validateToolMessages ms \<noteq> []
               \<and> role (last (validateToolMessages ms)) = Assistant
               \<and> answered (last (validateToolMessages ms)) m \<noteq> []
            then validateToolMessages ms @ [repaired_entry (last (validateToolMessages ms)) m]
            else validateToolMessages ms)
      else validateToolMessages ms @ [m])
   \<and> paired_after None (validateToolMessages ms)
   \<and> filter (\<lambda>x. \<not> carries_results x) (validateToolMessages ms)
        = filter (\<lambda>x. \<not> carries_results x) ms"
proof -
  have step: "validateToolMessages (ms @ [m]) = validate_entry (validateToolMessages ms) m"
    by (simp add: validateToolMessages_def validate_loop_snoc)
  have paired: "paired_after None (validateToolMessages ms)"
    by (simp add: validateToolMessages_def validate_loop_paired)
  have others: "filter (\<lambda>x. \<not> carries_results x) (validateToolMessages ms)
        = filter (\<lambda>x. \<not> carries_results x) ms"
    using validate_loop_others [of "[]" ms] by (simp add: validateToolMessages_def)
  show ?thesis
    using paired others
    by (simp add: step validate_entry_passes validate_entry_repairs)
qed


lemmas repair_defs = use_block_def result_block_def text_block_def question_def ask_AB_def
  reply_AC_def reply_C_def

lemma history_kept: "validateToolMessages [question, ask_AB] = [question, ask_AB]"
  by (simp add: validateToolMessages_def validate_entry_def repair_defs is_tool_result_def)

theorem validateToolMessages_repairs_witness:
  "carries_results reply_AC \<and> carries_results reply_C
   \<and> validateToolMessages ([question, ask_AB] @ [reply_AC]) =
       [question, ask_AB, \<lparr>role = User, content = Blocks [text_block ''note'', result_block ''A'']\<rparr>]
   \<and> validateToolMessages ([question, ask_AB] @ [reply_C]) = [question, ask_AB]
   \<and> validateToolMessages ([question] @ [reply_AC]) = [question]
   \<and> paired_after None (validateToolMessages [question, ask_AB, reply_AC])"
proof -
  have c: "carries_results reply_AC" "carries_results reply_C"
    by (simp_all add: carries_results_def blocks_of_def repair_defs is_tool_result_def)
  have q: "validateToolMessages [question] = [question]"
    by (simp add: validateToolMessages_def validate_entry_def repair_defs)
  have a1: "answered ask_AB reply_AC = [result_block ''A'']"
    by (simp add: answered_def invocation_ids_def blocks_of_def repair_defs is_tool_result_def
          is_tool_use_def)
  have a2: "answered ask_AB reply_C = []"
    by (simp add: answered_def invocation_ids_def blocks_of_def repair_defs is_tool_result_def
          is_tool_use_def)
  have r1: "repaired_entry ask_AB reply_AC =
              \<lparr>role = User, content = Blocks [text_block ''note'', result_block ''A'']\<rparr>"
    by (simp add: repaired_entry_def a1) (simp add: blocks_of_def repair_defs is_tool_result_def)
  have roles: "role ask_AB = Assistant" "role question = User"
    by (simp_all add: repair_defs)
  show ?thesis
    using validateToolMessages_repairs [of "[question, ask_AB]" reply_AC]
          validateToolMessages_repairs [of "[question, ask_AB]" reply_C]
          validateToolMessages_repairs [of "[question]" reply_AC]
          validateToolMessages_repairs [of "[question, ask_AB, reply_AC]" reply_C]
          c q a1 a2 r1 roles history_kept
    by simp
qed

section \<open>Properties of the tool executor\<close>

lemma escape_resolved:
  "path_resolve ''/'' ''/home/user/proj'' ''../proj-secret/key'' = ''/home/user/proj-secret/key''"
  by (simp add: path_resolve_def is_absolute_def)

text \<open>
  C9 says that a path resolving outside the project root is refused before any file system
  call. The check is \<^verbatim>\<open>fullPath.startsWith(this.projectRoot)\<close>, a test on characters: with
  the root \<^verbatim>\<open>/home/user/proj\<close>, the path \<^verbatim>\<open>../proj-secret/key\<close> resolves to
  \<^verbatim>\<open>/home/user/proj-secret/key\<close>, which starts with the root's characters and is not
  inside the root directory. \<^verbatim>\<open>execute\<close> does not refuse it: \<^verbatim>\<open>read_file\<close>,
  \<^verbatim>\<open>write_file\<close> and \<^verbatim>\<open>list_directory\<close> each go to the file system with that path.
\<close>

theorem execute_leaves_root:
  "execute ''/'' ''/home/user/proj'' ''read_file'' escape_input
     = Ran [FsReadFile ''/home/user/proj-secret/key'']
   \<and> execute ''/'' ''/home/user/proj'' ''write_file'' escape_input
     = Ran [FsMkdir ''/home/user/proj-secret'', FsWriteFile ''/home/user/proj-secret/key'' ''x'']
   \<and> execute ''/'' ''/home/user/proj'' ''list_directory'' escape_input
     = Ran [FsReaddir ''/home/user/proj-secret/key'']
   \<and> \<not> within_root ''/home/user/proj'' ''/home/user/proj-secret/key''"
  by (simp add: execute_def escape_input_def escape_resolved readFile_def writeFile_def
        listDirectory_def path_dirname_def within_root_def)

end
